theory Spec2Isabelle
  imports Complex_Main "HOL-Library.Log_Nat"
begin

section \<open>Numbers\<close>

text \<open>
  Go's \<open>int64\<close> and \<open>int\<close> (64 bits wide on the platforms the server is built for) are
  modelled as \<open>int\<close>; where the source converts between them the conversion is the
  identity on the values that occur. A \<open>float64\<close> is modelled by the rational number it
  denotes; \<open>None\<close> stands for NaN and the infinities. Every arithmetic result is rounded
  to a 53-bit significand, to nearest, ties to even, as IEEE 754 binary64 does.
\<close>

type_synonym float64 = "rat option"

definition round_half_even :: "rat \<Rightarrow> int" where
  "round_half_even x =
     (let f = \<lfloor>x\<rfloor>; d = x - of_int f
      in if d < 1 / 2 then f else if 1 / 2 < d then f + 1 else if even f then f else f + 1)"

text \<open>For \<open>x > 0\<close>, the exponent \<open>e\<close> with \<open>2\<^sup>e \<le> x < 2\<^sup>e\<^sup>+\<^sup>1\<close>.\<close>

definition binary_exponent :: "rat \<Rightarrow> int" where
  "binary_exponent x =
     (let (p, q) = quotient_of x; d = bitlen p - bitlen q
      in if 2 powi d \<le> x then d else d - 1)"

definition float64_round :: "rat \<Rightarrow> float64" where
  "float64_round x =
     (if x = 0 then Some 0
      else let e = max (binary_exponent \<bar>x\<bar>) (- 1022);
               m = round_half_even (\<bar>x\<bar> * 2 powi (52 - e));
               y = of_int m * 2 powi (e - 52)
           in if 2 powi 1024 \<le> y then None else Some (sgn x * y))"

text \<open>The conversion \<open>float64(n)\<close> of an integer.\<close>

definition float64_of_int :: "int \<Rightarrow> float64" where
  "float64_of_int n = float64_round (of_int n)"

text \<open>The quotient \<open>a / b\<close> of two \<open>float64\<close> values; dividing by zero gives NaN or an infinity.\<close>

definition float64_div :: "float64 \<Rightarrow> float64 \<Rightarrow> float64" where
  "float64_div a b =
     (case (a, b) of
        (Some x, Some y) \<Rightarrow> if y = 0 then None else float64_round (x / y)
      | _ \<Rightarrow> None)"

definition math_Ceil :: "float64 \<Rightarrow> float64" where
  "math_Ceil a = map_option (\<lambda>x. of_int \<lceil>x\<rceil>) a"

text \<open>
  The conversion \<open>int(f)\<close> truncates toward zero. Go leaves the result open when the value
  does not fit or is not a number; the value taken here is the one the amd64 instruction
  delivers, the least 64-bit integer.
\<close>

definition int_of_float64 :: "float64 \<Rightarrow> int" where
  "int_of_float64 a =
     (case a of
        None \<Rightarrow> - (2 ^ 63)
      | Some x \<Rightarrow>
          let t = (if x < 0 then \<lceil>x\<rceil> else \<lfloor>x\<rfloor>)
          in if - (2 ^ 63) \<le> t \<and> t < 2 ^ 63 then t else - (2 ^ 63))"

text \<open>
  \<^verbatim>\<open>int(math.Ceil(float64(metadata.FileSize) / float64(metadata.ChunkSize)))\<close>
  of \<open>registerFileHandler\<close>.
\<close>

definition totalChunks_of :: "int \<Rightarrow> int \<Rightarrow> int" where
  "totalChunks_of fileSize chunkSize =
     int_of_float64 (math_Ceil (float64_div (float64_of_int fileSize) (float64_of_int chunkSize)))"

definition minChunkSize :: int where
  "minChunkSize = 100 * 1024"

definition maxChunkSize :: int where
  "maxChunkSize = 4 * 1024 * 1024"

text \<open>
  \<open>calculateChunkSize\<close>; \<open>rnd\<close> is the value that
  \<^verbatim>\<open>rand.Intn(maxChunkSize-minChunkSize+1)\<close> returns, so \<open>0 \<le> rnd \<le> maxChunkSize - minChunkSize\<close>.
\<close>

definition calculateChunkSize :: "int \<Rightarrow> int \<Rightarrow> int" where
  "calculateChunkSize rnd fileSize =
     (let randomChunkSize = rnd + minChunkSize
      in if randomChunkSize > fileSize then fileSize else randomChunkSize)"

section \<open>Strings\<close>

text \<open>Byte sequences and Go strings are lists of 8-bit characters.\<close>

type_synonym bytes = string

definition digit_char :: "nat \<Rightarrow> char" where
  "digit_char d = ''0123456789'' ! d"

fun format_nat :: "nat \<Rightarrow> string" where
  "format_nat n =
     (if n < 10 then [digit_char n] else format_nat (n div 10) @ [digit_char (n mod 10)])"

declare format_nat.simps [simp del]

text \<open>\<^verbatim>\<open>strconv.FormatInt(n, 10)\<close>, also the verb \<^verbatim>\<open>%d\<close> of \<open>fmt.Sprintf\<close>.\<close>

definition FormatInt :: "int \<Rightarrow> string" where
  "FormatInt n = (if n < 0 then CHR ''-'' # format_nat (nat (- n)) else format_nat (nat n))"

definition digit_val :: "char \<Rightarrow> nat option" where
  "digit_val c =
     (let n = (of_char c :: nat) in if 48 \<le> n \<and> n \<le> 57 then Some (n - 48) else None)"

fun parse_digits :: "nat \<Rightarrow> string \<Rightarrow> nat option" where
  "parse_digits acc [] = Some acc"
| "parse_digits acc (c # cs) =
     (case digit_val c of None \<Rightarrow> None | Some d \<Rightarrow> parse_digits (10 * acc + d) cs)"

text \<open>
  \<open>strconv.Atoi\<close>: an optional sign, then at least one decimal digit, and a value
  that fits 64 bits; anything else is an error.
\<close>

definition Atoi :: "string \<Rightarrow> int option" where
  "Atoi s =
     (let (neg, ds) =
            (case s of
               [] \<Rightarrow> (False, s)
             | c # r \<Rightarrow> if c = CHR ''-'' then (True, r)
                        else if c = CHR ''+'' then (False, r) else (False, s))
      in if ds = [] then None
         else case parse_digits 0 ds of
                None \<Rightarrow> None
              | Some n \<Rightarrow>
                  let v = (if neg then - int n else int n)
                  in if - (2 ^ 63) \<le> v \<and> v < 2 ^ 63 then Some v else None)"

text \<open>\<open>strings.Split\<close> with a one-character separator.\<close>

fun strings_Split :: "string \<Rightarrow> char \<Rightarrow> string list" where
  "strings_Split [] sep = [[]]"
| "strings_Split (c # cs) sep =
     (if c = sep then [] # strings_Split cs sep
      else (case strings_Split cs sep of
              [] \<Rightarrow> [[c]]
            | p # ps \<Rightarrow> (c # p) # ps))"

section \<open>The server\<close>

record FileMetadata =
  ID :: string
  FileName :: string
  FileSize :: int
  FileHash :: string
  ChunkSize :: int
  TotalChunks :: int

text \<open>
  The two library functions whose results reach files and comparisons are parameters of
  the model: the SHA-256 digest printed with \<^verbatim>\<open>%x\<close>, and \<open>json.Marshal\<close> on a slice
  of \<open>FileMetadata\<close>.
\<close>

record lib =
  sha256_hex :: "bytes \<Rightarrow> string"
  json_Marshal :: "FileMetadata list \<Rightarrow> bytes"

text \<open>
  The working directory of the server maps file names to contents. The failures of the
  operating system are an oracle the handlers consult: creating, opening, reading or
  syncing the file of a given name fails, or a copy that reads or writes the file of a
  given name fails after a number of bytes.
\<close>

type_synonym dir = "string \<rightharpoonup> bytes"

record faults =
  create_fails :: "string \<Rightarrow> bool"
  open_fails :: "string \<Rightarrow> bool"
  read_fails :: "string \<Rightarrow> bool"
  copy_fails :: "string \<Rightarrow> nat option"
  sync_fails :: "string \<Rightarrow> bool"

definition no_faults :: faults where
  "no_faults =
     \<lparr>create_fails = (\<lambda>_. False), open_fails = (\<lambda>_. False), read_fails = (\<lambda>_. False),
      copy_fails = (\<lambda>_. None), sync_fails = (\<lambda>_. False)\<rparr>"

record server =
  filesMetadata :: "string \<rightharpoonup> FileMetadata"
  files :: dir

text \<open>
  What a handler reads of a request. \<open>Chunk_Hash\<close> is \<^verbatim>\<open>r.Header.Get("Chunk-Hash")\<close>, empty
  when the header is absent. \<open>Body_json\<close> is the struct that the JSON decoder reads from the
  body, \<open>None\<close> when decoding fails; the wire encoding of JSON is not modelled.
\<close>

record request =
  Method :: string
  Path :: string
  Chunk_Hash :: string
  Body :: bytes
  Body_json :: "FileMetadata option"

text \<open>
  A response is the status code with what was written: one constructor for each
  \<open>http.Error\<close> message of the source, \<open>OK\<close> for the bare \<open>WriteHeader(StatusOK)\<close>, and the
  marshalled metadata of a registration.
\<close>

datatype reply =
    OK
  | Registered FileMetadata
  | Only_POST_method_is_allowed
  | Decode_error
  | Invalid_URL
  | Chunk_hash_is_missing
  | Chunk_hash_number_is_missing
  | Error_creating_file
  | Error_writing_to_file
  | Chunk_hash_mismatch
  | File_metadata_not_found
  | Error_creating_final_file
  | Id_are_not_the_same
  | Chunk_file_does_not_exist
  | Error_opening_chunk_file int
  | Error_writing_to_final_file
  | Error_finalizing_file
  | Error_calculating_final_file_hash
  | Final_file_hash_mismatch
  | Error_updating_fileInfoDB

type_synonym response = "nat \<times> reply"

abbreviation StatusOK :: nat where "StatusOK \<equiv> 200"
abbreviation StatusBadRequest :: nat where "StatusBadRequest \<equiv> 400"
abbreviation StatusMethodNotAllowed :: nat where "StatusMethodNotAllowed \<equiv> 405"
abbreviation StatusInternalServerError :: nat where "StatusInternalServerError \<equiv> 500"

text \<open>\<open>generateUniqueID\<close>; \<open>now\<close> is \<^verbatim>\<open>time.Now().UnixNano()\<close>.\<close>

definition generateUniqueID :: "int \<Rightarrow> string" where
  "generateUniqueID now = FormatInt now"

text \<open>
  \<open>registerFileHandler\<close>. Marshalling the response cannot fail for a struct of strings and
  integers, so that branch of the source has no counterpart.
\<close>

definition registerFileHandler :: "int \<Rightarrow> int \<Rightarrow> request \<Rightarrow> server \<Rightarrow> response \<times> server" where
  "registerFileHandler now rnd r s =
     (if Method r \<noteq> ''POST'' then ((StatusMethodNotAllowed, Only_POST_method_is_allowed), s)
      else case Body_json r of
        None \<Rightarrow> ((StatusBadRequest, Decode_error), s)
      | Some decoded \<Rightarrow>
          let i = generateUniqueID now;
              cs = calculateChunkSize rnd (FileSize decoded);
              tc = totalChunks_of (FileSize decoded) cs;
              metadata = decoded\<lparr>ID := i, ChunkSize := cs, TotalChunks := tc\<rparr>
          in ((StatusOK, Registered metadata),
              s\<lparr>filesMetadata := (filesMetadata s)(i \<mapsto> metadata)\<rparr>))"

text \<open>\<^verbatim>\<open>fmt.Sprintf("%s_part_%d", fileID, num)\<close>\<close>

definition chunkFileName :: "string \<Rightarrow> int \<Rightarrow> string" where
  "chunkFileName fileID num = fileID @ ''_part_'' @ FormatInt num"

definition uploadChunkHandler :: "lib \<Rightarrow> faults \<Rightarrow> request \<Rightarrow> server \<Rightarrow> response \<times> server" where
  "uploadChunkHandler L F r s =
     (if Method r \<noteq> ''POST'' then ((StatusMethodNotAllowed, Only_POST_method_is_allowed), s)
      else let parts = strings_Split (Path r) CHR ''/''
      in if length parts < 4 then ((StatusBadRequest, Invalid_URL), s)
      else let fileID = parts ! 2; chunkNumber = parts ! 3; chunkHash = Chunk_Hash r
      in if chunkHash = [] then ((StatusBadRequest, Chunk_hash_is_missing), s)
      else case Atoi chunkNumber of
        None \<Rightarrow> ((StatusBadRequest, Chunk_hash_number_is_missing), s)
      | Some num \<Rightarrow>
          let name = chunkFileName fileID num
          in if create_fails F name then ((StatusInternalServerError, Error_creating_file), s)
          else case copy_fails F name of
            Some k \<Rightarrow>
              ((StatusInternalServerError, Error_writing_to_file),
               s\<lparr>files := (files s)(name \<mapsto> take k (Body r))\<rparr>)
          | None \<Rightarrow>
              let s' = s\<lparr>files := (files s)(name \<mapsto> Body r)\<rparr>
              in if sha256_hex L (Body r) \<noteq> chunkHash
                 then ((StatusBadRequest, Chunk_hash_mismatch), s')
                 else ((StatusOK, OK), s'))"

text \<open>\<open>ioutil.ReadFile\<close> and \<open>ioutil.WriteFile\<close>; the flag returned says \<open>err != nil\<close>.\<close>

definition ReadFile :: "faults \<Rightarrow> dir \<Rightarrow> string \<Rightarrow> bytes option" where
  "ReadFile F fs name =
     (case fs name of
        None \<Rightarrow> None
      | Some d \<Rightarrow> if open_fails F name \<or> read_fails F name then None else Some d)"

definition WriteFile :: "faults \<Rightarrow> dir \<Rightarrow> string \<Rightarrow> bytes \<Rightarrow> bool \<times> dir" where
  "WriteFile F fs name d =
     (if create_fails F name then (True, fs)
      else case copy_fails F name of
        Some k \<Rightarrow> (True, fs(name \<mapsto> take k d))
      | None \<Rightarrow> (False, fs(name \<mapsto> d)))"

text \<open>
  \<open>updateFileInfoDB\<close>. When the read fails the source unmarshals the empty data, which
  changes nothing, and returns the error; when the read succeeds the data read is not
  unmarshalled, so \<open>fileInfos\<close> is still empty when the new record is appended.
\<close>

definition updateFileInfoDB :: "lib \<Rightarrow> faults \<Rightarrow> FileMetadata \<Rightarrow> dir \<Rightarrow> bool \<times> dir" where
  "updateFileInfoDB L F metadata fs =
     (let fileInfoDB = ''fileInfoDB.json''; fileInfos = []
      in case ReadFile F fs fileInfoDB of
        None \<Rightarrow> (True, fs)
      | Some d \<Rightarrow>
          let fileInfos = fileInfos @ [metadata];
              newData = json_Marshal L fileInfos
          in WriteFile F fs fileInfoDB newData)"

text \<open>
  The loop of \<open>completeUploadHandler\<close> over the chunk numbers \<open>i\<close> to \<open>totalChunks\<close>.
  \<open>written\<close> is what has been written through the handle of the final file so far. The
  result is the error response if the loop returned early, with the bytes written and the
  directory. The open final file is identified with its directory entry; the two could
  differ only if a chunk file had the name of the final file, which the ids that
  \<open>generateUniqueID\<close> issues exclude.
\<close>

function reassemble ::
  "faults \<Rightarrow> string \<Rightarrow> string \<Rightarrow> int \<Rightarrow> int \<Rightarrow> bytes \<Rightarrow> dir \<Rightarrow> response option \<times> bytes \<times> dir" where
  "reassemble F fileID finalFileName totalChunks i written fs =
     (if i \<le> totalChunks then
        let name = chunkFileName fileID i
        in case fs name of
          None \<Rightarrow> (Some (StatusInternalServerError, Chunk_file_does_not_exist), written, fs)
        | Some d \<Rightarrow>
            if open_fails F name
            then (Some (StatusInternalServerError, Error_opening_chunk_file i), written, fs)
            else case copy_fails F name of
              Some k \<Rightarrow>
                (Some (StatusInternalServerError, Error_writing_to_final_file),
                 written @ take k d, fs(finalFileName \<mapsto> written @ take k d))
            | None \<Rightarrow>
                reassemble F fileID finalFileName totalChunks (i + 1) (written @ d)
                  ((fs(finalFileName \<mapsto> written @ d))(name := None))
      else (None, written, fs))"
  by pat_completeness auto
termination
  by (relation "measure (\<lambda>(F, fileID, finalFileName, totalChunks, i, written, fs). nat (totalChunks + 1 - i))") auto

declare reassemble.simps [simp del]

definition completeUploadHandler :: "lib \<Rightarrow> faults \<Rightarrow> request \<Rightarrow> server \<Rightarrow> response \<times> server" where
  "completeUploadHandler L F r s =
     (let parts = strings_Split (Path r) CHR ''/''
      in if length parts < 3 then ((StatusBadRequest, Invalid_URL), s)
      else let fileID = parts ! 2
      in case filesMetadata s fileID of
        None \<Rightarrow> ((StatusBadRequest, File_metadata_not_found), s)
      | Some metadata \<Rightarrow>
          let finalFileName = ''final_'' @ FileName metadata
          in if create_fails F finalFileName
             then ((StatusInternalServerError, Error_creating_final_file), s)
          else let fs0 = (files s)(finalFileName \<mapsto> [])
          in if fileID \<noteq> ID metadata
             then ((StatusInternalServerError, Id_are_not_the_same), s\<lparr>files := fs0\<rparr>)
          else case reassemble F fileID finalFileName (TotalChunks metadata) 1 [] fs0 of
            (Some err, written, fs1) \<Rightarrow> (err, s\<lparr>files := fs1\<rparr>)
          | (None, written, fs1) \<Rightarrow>
              if sync_fails F finalFileName
              then ((StatusInternalServerError, Error_finalizing_file), s\<lparr>files := fs1\<rparr>)
              else if read_fails F finalFileName
              then ((StatusInternalServerError, Error_calculating_final_file_hash),
                    s\<lparr>files := fs1\<rparr>)
              else if sha256_hex L written \<noteq> FileHash metadata
              then ((StatusBadRequest, Final_file_hash_mismatch), s\<lparr>files := fs1\<rparr>)
              else case updateFileInfoDB L F metadata fs1 of
                (True, fs2) \<Rightarrow>
                  ((StatusInternalServerError, Error_updating_fileInfoDB), s\<lparr>files := fs2\<rparr>)
              | (False, fs2) \<Rightarrow> ((StatusOK, OK), s\<lparr>files := fs2\<rparr>))"

text \<open>The sequence numbers from 1 up to the first chunk file that is not in the directory.\<close>

definition chunks_present :: "dir \<Rightarrow> string \<Rightarrow> int \<Rightarrow> int list" where
  "chunks_present fs fileID totalChunks =
     takeWhile (\<lambda>j. fs (chunkFileName fileID j) \<noteq> None) [1..totalChunks]"

text \<open>
  The I/O failures that \<open>completeUploadHandler\<close> can meet, as conditions on the directory
  and the oracle. In the loop: among the chunk files 1 to \<open>totalChunks\<close>, one is not in
  the directory, cannot be opened, or cannot be copied. In the ledger update:
  \<^verbatim>\<open>fileInfoDB.json\<close> cannot be read (it is absent, or opening or reading it fails) or
  cannot be written.
\<close>

definition chunk_failure :: "faults \<Rightarrow> dir \<Rightarrow> string \<Rightarrow> int \<Rightarrow> bool" where
  "chunk_failure F fs fileID totalChunks =
     list_ex (\<lambda>j. fs (chunkFileName fileID j) = None
                  \<or> open_fails F (chunkFileName fileID j)
                  \<or> copy_fails F (chunkFileName fileID j) \<noteq> None)
       [1..totalChunks]"

definition ledger_failure :: "faults \<Rightarrow> dir \<Rightarrow> bool" where
  "ledger_failure F fs =
     (fs ''fileInfoDB.json'' = None
      \<or> open_fails F ''fileInfoDB.json'' \<or> read_fails F ''fileInfoDB.json''
      \<or> create_fails F ''fileInfoDB.json'' \<or> copy_fails F ''fileInfoDB.json'' \<noteq> None)"

section \<open>The client\<close>

text \<open>
  The network is the direct call of a handler on the state of the server; \<open>sent\<close> records
  every request issued, in order. Requests always arrive and responses always return.
\<close>

record world =
  srv :: server
  sent :: "request list"

text \<open>
  \<open>registerFile\<close>. The request carries \<open>FileInfo\<close>, which the server decodes into a
  \<open>FileMetadata\<close> whose other fields are zero. The response decodes into a
  \<open>RegistrationResponse\<close> (id, chunk size, total chunks) only if it is the marshalled
  metadata; the text of an error response does not decode.
\<close>

definition registerFile ::
  "int \<Rightarrow> int \<Rightarrow> string \<Rightarrow> int \<Rightarrow> string \<Rightarrow> world \<Rightarrow> (string \<times> int \<times> int) option \<times> world" where
  "registerFile now rnd fileName fileSize fileHash w =
     (let r = \<lparr>Method = ''POST'', Path = ''/register_file'', Chunk_Hash = [], Body = [],
               Body_json = Some \<lparr>ID = [], FileName = fileName, FileSize = fileSize,
                                 FileHash = fileHash, ChunkSize = 0, TotalChunks = 0\<rparr>\<rparr>;
          (resp, s) = registerFileHandler now rnd r (srv w);
          w' = \<lparr>srv = s, sent = sent w @ [r]\<rparr>
      in case snd resp of
           Registered m \<Rightarrow> (Some (ID m, ChunkSize m, TotalChunks m), w')
         | _ \<Rightarrow> (None, w'))"

text \<open>\<open>sendChunk\<close>; the flag returned says \<open>err != nil\<close>.\<close>

definition sendChunk ::
  "lib \<Rightarrow> faults \<Rightarrow> string \<Rightarrow> int \<Rightarrow> bytes \<Rightarrow> string \<Rightarrow> world \<Rightarrow> bool \<times> world" where
  "sendChunk L F fileID chunkNumber chunkData chunkHash w =
     (let r = \<lparr>Method = ''POST'',
               Path = ''/upload_chunk/'' @ fileID @ ''/'' @ FormatInt chunkNumber,
               Chunk_Hash = chunkHash, Body = chunkData, Body_json = None\<rparr>;
          (resp, s) = uploadChunkHandler L F r (srv w)
      in (fst resp \<noteq> StatusOK, \<lparr>srv = s, sent = sent w @ [r]\<rparr>))"

text \<open>
  The loop of \<open>sendFileChunks\<close>; \<open>rest\<close> is the part of the file after the read position.
  A read fills the buffer of \<open>chunkSize\<close> bytes or takes what is left.
\<close>

function sendFileChunks_loop ::
  "lib \<Rightarrow> faults \<Rightarrow> string \<Rightarrow> nat \<Rightarrow> int \<Rightarrow> bytes \<Rightarrow> world \<Rightarrow> bool \<times> world" where
  "sendFileChunks_loop L F fileID chunkSize chunkNumber rest w =
     (let chunkData = take chunkSize rest
      in if chunkData = [] then (False, w)
         else case sendChunk L F fileID chunkNumber chunkData (sha256_hex L chunkData) w of
           (True, w') \<Rightarrow> (True, w')
         | (False, w') \<Rightarrow>
             sendFileChunks_loop L F fileID chunkSize (chunkNumber + 1) (drop chunkSize rest) w')"
  by pat_completeness auto
termination
  by (relation "measure (\<lambda>(L, F, fileID, chunkSize, chunkNumber, rest, w). length rest)") auto

declare sendFileChunks_loop.simps [simp del]

datatype outcome = Exit string | Panic | Returned

text \<open>
  \<open>sendFileChunks\<close>: allocating a buffer of negative length panics; otherwise the loop
  runs from chunk number 1 at the start of the file.
\<close>

definition sendFileChunks ::
  "lib \<Rightarrow> faults \<Rightarrow> bytes \<Rightarrow> string \<Rightarrow> int \<Rightarrow> world \<Rightarrow> (bool \<times> world) option" where
  "sendFileChunks L F file fileID chunkSize w =
     (if chunkSize < 0 then None
      else Some (sendFileChunks_loop L F fileID (nat chunkSize) 1 file w))"

definition completeUpload :: "lib \<Rightarrow> faults \<Rightarrow> string \<Rightarrow> world \<Rightarrow> world" where
  "completeUpload L F fileID w =
     (let r = \<lparr>Method = ''GET'', Path = ''/complete_upload/'' @ fileID, Chunk_Hash = [],
               Body = [], Body_json = None\<rparr>;
          (resp, s) = completeUploadHandler L F r (srv w)
      in \<lparr>srv = s, sent = sent w @ [r]\<rparr>)"

text \<open>
  \<open>main\<close> of the client. \<open>file\<close> is the content of the file at the path given, \<open>None\<close> when
  it cannot be opened; \<open>fileName\<close> is the base name of the path. Once the file is open,
  asking for its size, seeking and reading do not fail. \<open>F\<close>, \<open>now\<close> and \<open>rnd\<close> belong to
  the server that answers.
\<close>

definition client_main ::
  "lib \<Rightarrow> faults \<Rightarrow> int \<Rightarrow> int \<Rightarrow> string \<Rightarrow> bytes option \<Rightarrow> world \<Rightarrow> outcome \<times> world" where
  "client_main L F now rnd fileName file w =
     (case file of
        None \<Rightarrow> (Exit ''Error opening file'', w)
      | Some content \<Rightarrow>
          if int (length content) = 0 then (Exit ''File is empty'', w)
          else let fileHash = sha256_hex L content
          in case registerFile now rnd fileName (int (length content)) fileHash w of
            (None, w1) \<Rightarrow> (Exit ''Error registering file'', w1)
          | (Some (fileID, chunkSize, totalChunks), w1) \<Rightarrow>
              (case sendFileChunks L F content fileID chunkSize w1 of
                 None \<Rightarrow> (Panic, w1)
               | Some (True, w2) \<Rightarrow> (Exit ''Error sending file chunks'', w2)
               | Some (False, w2) \<Rightarrow> (Returned, completeUpload L F fileID w2)))"

section \<open>Stand-ins for the library, for concrete runs\<close>

text \<open>
  Concrete runs need some digest and some encoding. The stand-in digest is the
  length of the data in decimal followed by the data; the stand-in encoding lists the
  fields of each record between brackets.
\<close>

definition demo_hash :: "bytes \<Rightarrow> string" where
  "demo_hash d = FormatInt (int (length d)) @ '':'' @ d"

definition demo_record :: "FileMetadata \<Rightarrow> bytes" where
  "demo_record m =
     ''{'' @ ID m @ '','' @ FileName m @ '','' @ FormatInt (FileSize m) @ '','' @ FileHash m
       @ '','' @ FormatInt (ChunkSize m) @ '','' @ FormatInt (TotalChunks m) @ ''}''"

definition demo_lib :: lib where
  "demo_lib = \<lparr>sha256_hex = demo_hash, json_Marshal = (\<lambda>ms. ''['' @ concat (map demo_record ms) @ '']'')\<rparr>"

text \<open>A server that holds one registered upload, in several states of its directory,
  and requests to it.\<close>

definition demo_metadata :: FileMetadata where
  "demo_metadata =
     \<lparr>ID = ''7'', FileName = ''a.txt'', FileSize = 3, FileHash = demo_hash ''abc'',
      ChunkSize = 3, TotalChunks = 1\<rparr>"

definition demo_earlier :: FileMetadata where
  "demo_earlier =
     \<lparr>ID = ''5'', FileName = ''b.txt'', FileSize = 2, FileHash = demo_hash ''xy'',
      ChunkSize = 2, TotalChunks = 1\<rparr>"

definition demo_server :: server where
  "demo_server =
     \<lparr>filesMetadata = [''7'' \<mapsto> demo_metadata],
      files = [''7_part_1'' \<mapsto> ''abc'',
               ''fileInfoDB.json'' \<mapsto> json_Marshal demo_lib [demo_earlier]]\<rparr>"

definition demo_server_no_ledger :: server where
  "demo_server_no_ledger =
     \<lparr>filesMetadata = [''7'' \<mapsto> demo_metadata], files = [''7_part_1'' \<mapsto> ''abc'']\<rparr>"

definition demo_complete :: request where
  "demo_complete =
     \<lparr>Method = ''GET'', Path = ''/complete_upload/7'', Chunk_Hash = [], Body = [],
      Body_json = None\<rparr>"

definition demo_upload_corrupt :: request where
  "demo_upload_corrupt =
     \<lparr>Method = ''POST'', Path = ''/upload_chunk/7/1'', Chunk_Hash = demo_hash ''abc'',
      Body = ''abX'', Body_json = None\<rparr>"

definition demo_server_registered :: server where
  "demo_server_registered =
     \<lparr>filesMetadata = [''7'' \<mapsto> demo_metadata],
      files = [''fileInfoDB.json'' \<mapsto> json_Marshal demo_lib [demo_earlier]]\<rparr>"

definition demo_complete_unknown :: request where
  "demo_complete_unknown =
     \<lparr>Method = ''GET'', Path = ''/complete_upload/9'', Chunk_Hash = [], Body = [],
      Body_json = None\<rparr>"

definition demo_metadata_gap :: FileMetadata where
  "demo_metadata_gap =
     \<lparr>ID = ''8'', FileName = ''c.txt'', FileSize = 6, FileHash = demo_hash ''abcdef'',
      ChunkSize = 3, TotalChunks = 2\<rparr>"

definition demo_server_gap :: server where
  "demo_server_gap =
     \<lparr>filesMetadata = [''8'' \<mapsto> demo_metadata_gap],
      files = [''8_part_1'' \<mapsto> ''abc'', ''final_c.txt'' \<mapsto> ''earlier content'']\<rparr>"

definition demo_complete_gap :: request where
  "demo_complete_gap =
     \<lparr>Method = ''GET'', Path = ''/complete_upload/8'', Chunk_Hash = [], Body = [],
      Body_json = None\<rparr>"

definition demo_world :: world where
  "demo_world = \<lparr>srv = \<lparr>filesMetadata = Map.empty, files = Map.empty\<rparr>, sent = []\<rparr>"

definition demo_faults_create :: faults where
  "demo_faults_create = no_faults\<lparr>create_fails := (\<lambda>_. True)\<rparr>"

section \<open>Rounding to \<open>float64\<close>\<close>

lemma round_half_even_lower: "of_int k \<le> t \<Longrightarrow> k \<le> round_half_even t"
proof -
  assume "of_int k \<le> t"
  then have "k \<le> \<lfloor>t\<rfloor>" by (simp add: le_floor_iff)
  then show ?thesis by (auto simp: round_half_even_def Let_def)
qed

lemma round_half_even_upper: "t \<le> of_int k \<Longrightarrow> round_half_even t \<le> k"
proof -
  assume h: "t \<le> of_int k"
  have f: "\<lfloor>t\<rfloor> \<le> k" using h by (simp add: floor_le_iff) 
  show ?thesis
  proof (cases "\<lfloor>t\<rfloor> = k")
    case True
    then have "t - of_int \<lfloor>t\<rfloor> \<le> 0" using h by simp
    then show ?thesis using True by (simp add: round_half_even_def Let_def)
  next
    case False
    then have "\<lfloor>t\<rfloor> + 1 \<le> k" using f by simp
    then show ?thesis by (auto simp: round_half_even_def Let_def)
  qed
qed

lemma round_half_even_above: "of_int k + 1 / 2 < t \<Longrightarrow> k < round_half_even t"
proof -
  assume h: "of_int k + 1 / 2 < t"
  then have f: "k \<le> \<lfloor>t\<rfloor>" by (simp add: le_floor_iff)
  show ?thesis
  proof (cases "\<lfloor>t\<rfloor> = k")
    case True
    then have "1 / 2 < t - of_int \<lfloor>t\<rfloor>" using h by simp
    then show ?thesis using True by (simp add: round_half_even_def Let_def)
  next
    case False
    then have "k < \<lfloor>t\<rfloor>" using f by simp
    then show ?thesis by (auto simp: round_half_even_def Let_def)
  qed
qed

lemma bitlen_within:
  assumes "0 < n"
  shows "(2::rat) powi (bitlen n - 1) \<le> of_int n" and "of_int n < (2::rat) powi (bitlen n)"
proof -
  have b1: "1 \<le> bitlen n"
    using assms bitlen_eq_zero_iff [of n] bitlen_nonneg [of n] by linarith
  have "(2::int) ^ nat (bitlen n - 1) \<le> n" and "n < 2 ^ nat (bitlen n)"
    using bitlen_bounds [OF assms] by simp_all
  then have "of_int ((2::int) ^ nat (bitlen n - 1)) \<le> (of_int n :: rat)"
       and "(of_int n :: rat) < of_int (2 ^ nat (bitlen n))"
    by (simp_all only: of_int_le_iff of_int_less_iff)
  then show "(2::rat) powi (bitlen n - 1) \<le> of_int n" and "of_int n < (2::rat) powi (bitlen n)"
    using b1 by (simp_all add: power_int_def)
qed

lemma binary_exponent_bounds:
  assumes "0 < x"
  shows "2 powi (binary_exponent x) \<le> x" and "x < 2 powi (binary_exponent x + 1)"
proof -
  obtain p q where pq: "quotient_of x = (p, q)" by force
  have q: "0 < q" using quotient_of_denom_pos [OF pq] .
  have x: "x = of_int p / of_int q" using quotient_of_div [OF pq] .
  have p: "0 < p" using assms q x by (simp add: zero_less_divide_iff)
  define bp where "bp = bitlen p"
  define bq where "bq = bitlen q"
  have bp1: "1 \<le> bp" using p bitlen_eq_zero_iff [of p] bitlen_nonneg [of p] unfolding bp_def by linarith
  have bq1: "1 \<le> bq" using q bitlen_eq_zero_iff [of q] bitlen_nonneg [of q] unfolding bq_def by linarith
  have pl: "(2::rat) powi (bp - 1) \<le> of_int p" and pu: "of_int p < (2::rat) powi bp"
    using bitlen_within [OF p] by (simp_all add: bp_def)
  have ql: "(2::rat) powi (bq - 1) \<le> of_int q" and qu: "of_int q < (2::rat) powi bq"
    using bitlen_within [OF q] by (simp_all add: bq_def)
  have qpos: "(0::rat) < of_int q" using q by simp
  have up: "x < 2 powi (bp - bq + 1)"
  proof -
    have "of_int p < (2::rat) powi (bp - bq + 1) * 2 powi (bq - 1)"
      using pu by (simp add: power_int_add [symmetric])
    also have "\<dots> \<le> 2 powi (bp - bq + 1) * of_int q"
      using ql by (simp add: mult_left_mono)
    finally show ?thesis using qpos by (simp add: x pos_divide_less_eq)
  qed
  have lo: "2 powi (bp - bq - 1) < x"
  proof -
    have "(2::rat) powi (bp - bq - 1) * of_int q < 2 powi (bp - bq - 1) * 2 powi bq"
      using qu by (simp add: mult_strict_left_mono)
    also have "\<dots> = 2 powi (bp - 1)" by (simp add: power_int_add [symmetric])
    also have "\<dots> \<le> of_int p" using pl .
    finally show ?thesis using qpos by (simp add: x pos_less_divide_eq)
  qed
  have be: "binary_exponent x = (if 2 powi (bp - bq) \<le> x then bp - bq else bp - bq - 1)"
    by (simp add: binary_exponent_def pq bp_def bq_def)
  show "2 powi (binary_exponent x) \<le> x" using lo by (simp add: be)
  show "x < 2 powi (binary_exponent x + 1)" using up by (auto simp add: be)
qed

lemma binary_exponent_unique:
  assumes "2 powi e \<le> x" and "x < 2 powi (e + 1)"
  shows "binary_exponent x = e"
proof -
  have x0: "0 < x" using assms(1) by (rule less_le_trans [rotated]) simp
  define e' where "e' = binary_exponent x"
  have lo: "2 powi e' \<le> x" and hi: "x < 2 powi (e' + 1)"
    using binary_exponent_bounds [OF x0] by (simp_all add: e'_def)
  have "\<not> e' < e"
  proof
    assume "e' < e"
    then have "(2::rat) powi (e' + 1) \<le> 2 powi e" by (intro power_int_increasing) simp_all
    then show False using hi assms(1) by simp
  qed
  moreover have "\<not> e < e'"
  proof
    assume "e < e'"
    then have "(2::rat) powi (e + 1) \<le> 2 powi e'" by (intro power_int_increasing) simp_all
    then show False using lo assms(2) by simp
  qed
  ultimately show ?thesis by (simp add: e'_def)
qed

lemma float64_round_at:
  assumes "2 powi e \<le> x" and "x < 2 powi (e + 1)" and "- 1022 \<le> e" and "e \<le> 1022"
  shows "float64_round x =
      Some (of_int (round_half_even (x * 2 powi (52 - e))) * 2 powi (e - 52))"
proof -
  have x0: "0 < x" using assms(1) by (rule less_le_trans [rotated]) simp
  have be: "binary_exponent x = e" using assms(1,2) by (rule binary_exponent_unique)
  define m where "m = round_half_even (x * 2 powi (52 - e))"
  have "x * 2 powi (52 - e) < 2 powi (e + 1) * 2 powi (52 - e)"
    using assms(2) by (simp add: mult_strict_right_mono)
  also have "\<dots> = 2 powi 53" by (simp add: power_int_add [symmetric])
  finally have "x * 2 powi (52 - e) \<le> of_int (2 ^ 53)" by simp
  then have "m \<le> 2 ^ 53" unfolding m_def by (rule round_half_even_upper)
  then have "(of_int m :: rat) \<le> of_int (2 ^ 53)" by (simp only: of_int_le_iff)
  then have "(of_int m :: rat) \<le> 2 powi 53" by simp
  then have "(of_int m :: rat) * 2 powi (e - 52) \<le> 2 powi 53 * 2 powi (e - 52)"
    by (intro mult_right_mono) simp_all
  also have "\<dots> = 2 powi (53 + (e - 52))" by (rule power_int_add [symmetric]) simp
  also have "\<dots> < (2::rat) powi 1024" using assms(4) by (intro power_int_strict_increasing) simp_all
  finally have nov: "\<not> 2 powi 1024 \<le> (of_int m :: rat) * 2 powi (e - 52)" by simp
  show ?thesis
    using x0 assms(3) nov by (simp add: float64_round_def Let_def be m_def [symmetric] max_def)
qed

lemma float64_round_normal:
  assumes "2 powi (- 1022) \<le> x" and "x < 2 powi 53"
  shows "binary_exponent x \<le> 52"
    and "float64_round x =
      Some (of_int (round_half_even (x * 2 powi (52 - binary_exponent x)))
            * 2 powi (binary_exponent x - 52))"
proof -
  define e where "e = binary_exponent x"
  have x0: "0 < x" using assms(1) by (rule less_le_trans [rotated]) simp
  have lo: "2 powi e \<le> x" and hi: "x < 2 powi (e + 1)"
    using binary_exponent_bounds [OF x0] by (simp_all add: e_def)
  have e52: "e \<le> 52"
  proof (rule ccontr)
    assume "\<not> e \<le> 52"
    then have "(2::rat) powi 53 \<le> 2 powi e" by (intro power_int_increasing) simp_all
    then show False using lo assms(2) by simp
  qed
  have e1022: "- 1022 \<le> e"
  proof (rule ccontr)
    assume "\<not> - 1022 \<le> e"
    then have "(2::rat) powi (e + 1) \<le> 2 powi (- 1022)" by (intro power_int_increasing) simp_all
    then show False using hi assms(1) by simp
  qed
  show "binary_exponent x \<le> 52" using e52 by (simp add: e_def)
  have "e \<le> 1022" using e52 by simp
  from float64_round_at [OF lo hi e1022 this]
  show "float64_round x =
      Some (of_int (round_half_even (x * 2 powi (52 - binary_exponent x)))
            * 2 powi (binary_exponent x - 52))"
    by (simp add: e_def)
qed

lemma float64_round_int_le:
  assumes "2 powi (- 1022) \<le> x" and "x < 2 powi 53" and "x \<le> of_int c"
  shows "\<exists>y. float64_round x = Some y \<and> y \<le> of_int c"
proof -
  define e where "e = binary_exponent x"
  have e52: "e \<le> 52" using float64_round_normal(1) [OF assms(1,2)] by (simp add: e_def)
  define k where "k = nat (52 - e)"
  have s: "(2::rat) powi (52 - e) = of_int (2 ^ k)" using e52 by (simp add: k_def power_int_def)
  have "x * 2 powi (52 - e) \<le> of_int c * of_int (2 ^ k)"
    using assms(3) by (simp add: s mult_right_mono)
  then have "round_half_even (x * 2 powi (52 - e)) \<le> c * 2 ^ k"
    by (intro round_half_even_upper) simp
  then have "(of_int (round_half_even (x * 2 powi (52 - e))) :: rat) \<le> of_int (c * 2 ^ k)"
    by (simp only: of_int_le_iff)
  then have "(of_int (round_half_even (x * 2 powi (52 - e))) :: rat) * 2 powi (e - 52)
      \<le> of_int (c * 2 ^ k) * 2 powi (e - 52)"
    by (simp add: mult_right_mono)
  also have "\<dots> = of_int c * (2 powi (52 - e) * 2 powi (e - 52))" by (simp add: s)
  also have "\<dots> = of_int c" by (simp add: power_int_add [symmetric])
  finally show ?thesis
    using float64_round_normal(2) [OF assms(1,2)] by (simp add: e_def)
qed

lemma float64_round_int_less:
  assumes "2 powi (- 1022) \<le> x" and "x < 2 powi 53"
    and "of_int c * 2 powi (52 - binary_exponent x) + 1 / 2 < x * 2 powi (52 - binary_exponent x)"
  shows "\<exists>y. float64_round x = Some y \<and> of_int c < y"
proof -
  define e where "e = binary_exponent x"
  have e52: "e \<le> 52" using float64_round_normal(1) [OF assms(1,2)] by (simp add: e_def)
  define k where "k = nat (52 - e)"
  have s: "(2::rat) powi (52 - e) = of_int (2 ^ k)" using e52 by (simp add: k_def power_int_def)
  have "of_int (c * 2 ^ k) + 1 / 2 < x * 2 powi (52 - e)"
    using assms(3) by (simp add: e_def [symmetric] s)
  then have "c * 2 ^ k < round_half_even (x * 2 powi (52 - e))"
    by (rule round_half_even_above)
  then have "(of_int (c * 2 ^ k) :: rat) < of_int (round_half_even (x * 2 powi (52 - e)))"
    by (simp only: of_int_less_iff)
  then have "(of_int (c * 2 ^ k) :: rat) * 2 powi (e - 52)
      < of_int (round_half_even (x * 2 powi (52 - e))) * 2 powi (e - 52)"
    by (simp add: mult_strict_right_mono)
  moreover have "(of_int (c * 2 ^ k) :: rat) * 2 powi (e - 52) = of_int c * (2 powi (52 - e) * 2 powi (e - 52))"
    by (simp add: s)
  moreover have "\<dots> = of_int c" by (simp add: power_int_add [symmetric])
  ultimately have "of_int c < of_int (round_half_even (x * 2 powi (52 - e))) * (2::rat) powi (e - 52)"
    by (simp only:)
  then show ?thesis
    unfolding e_def float64_round_normal(2) [OF assms(1,2)] by blast
qed

lemma float64_round_int_ge:
  assumes "2 powi (- 1022) \<le> x" and "x < 2 powi 53" and "of_int c \<le> x"
  shows "\<exists>y. float64_round x = Some y \<and> of_int c \<le> y"
proof -
  define e where "e = binary_exponent x"
  have e52: "e \<le> 52" using float64_round_normal(1) [OF assms(1,2)] by (simp add: e_def)
  define k where "k = nat (52 - e)"
  have s: "(2::rat) powi (52 - e) = of_int (2 ^ k)" using e52 by (simp add: k_def power_int_def)
  have "of_int c * of_int (2 ^ k) \<le> x * 2 powi (52 - e)"
    using assms(3) by (simp add: s mult_right_mono)
  then have "c * 2 ^ k \<le> round_half_even (x * 2 powi (52 - e))"
    by (intro round_half_even_lower) simp
  then have "(of_int (c * 2 ^ k) :: rat) \<le> of_int (round_half_even (x * 2 powi (52 - e)))"
    by (simp only: of_int_le_iff)
  then have "(of_int (c * 2 ^ k) :: rat) * 2 powi (e - 52)
      \<le> of_int (round_half_even (x * 2 powi (52 - e))) * 2 powi (e - 52)"
    by (intro mult_right_mono) simp_all
  moreover have "(of_int (c * 2 ^ k) :: rat) * 2 powi (e - 52) = of_int c * (2 powi (52 - e) * 2 powi (e - 52))"
    by (simp add: s)
  moreover have "\<dots> = of_int c" by (simp add: power_int_add [symmetric])
  ultimately have "of_int c \<le> of_int (round_half_even (x * 2 powi (52 - e))) * (2::rat) powi (e - 52)"
    by (simp only:)
  then show ?thesis
    unfolding e_def float64_round_normal(2) [OF assms(1,2)] by blast
qed

lemma int_in_normal_range:
  assumes "0 < n" and "n < 2 ^ 53"
  shows "2 powi (- 1022) \<le> (of_int n :: rat)" and "(of_int n :: rat) < 2 powi 53"
proof -
  have "(2::rat) powi (- 1022) \<le> 2 powi 0" by (intro power_int_increasing) simp_all
  also have "\<dots> \<le> of_int n" using assms(1) by simp
  finally show "2 powi (- 1022) \<le> (of_int n :: rat)" .
  have "(of_int n :: rat) < of_int (2 ^ 53)" using assms(2) by (simp only: of_int_less_iff)
  then show "(of_int n :: rat) < 2 powi 53" by simp
qed

lemma float64_of_int_exact:
  assumes "0 < n" and "n < 2 ^ 53"
  shows "float64_of_int n = Some (of_int n)"
proof -
  note r = int_in_normal_range [OF assms]
  obtain y where y: "float64_round (of_int n) = Some y" "y \<le> of_int n"
    using float64_round_int_le [OF r, of n] by auto
  obtain z where z: "float64_round (of_int n) = Some z" "of_int n \<le> z"
    using float64_round_int_ge [OF r, of n] by auto
  from y z show ?thesis by (simp add: float64_of_int_def)
qed

lemma ceil_div_bounds:
  fixes a b :: int
  assumes "0 < b"
  shows "a \<le> ((a + b - 1) div b) * b" and "((a + b - 1) div b - 1) * b < a"
proof -
  have m: "(a + b - 1) mod b < b" "0 \<le> (a + b - 1) mod b" using assms by simp_all
  have d: "((a + b - 1) div b) * b = a + b - 1 - (a + b - 1) mod b"
    by (simp add: algebra_simps minus_mod_eq_mult_div [symmetric])
  show "a \<le> ((a + b - 1) div b) * b" using m unfolding d by linarith
  have "((a + b - 1) div b - 1) * b = ((a + b - 1) div b) * b - b" by (simp add: algebra_simps)
  then show "((a + b - 1) div b - 1) * b < a" using m unfolding d by linarith
qed

theorem totalChunks_of_exact:
  assumes a: "0 < a" "a < 2 ^ 53" and b: "0 < b" "b < 2 ^ 53"
  shows "totalChunks_of a b = (a + b - 1) div b"
proof -
  define x :: rat where "x = of_int a / of_int b"
  define c where "c = (a + b - 1) div b"
  define e where "e = binary_exponent x"
  have bpos: "(0::rat) < of_int b" using b(1) by simp
  have xb: "x * of_int b = of_int a" using bpos by (simp add: x_def)
  have x_pos: "0 < x" using a(1) b(1) by (simp add: x_def)
  have x_hi: "x < 2 powi 53"
  proof -
    have "x \<le> of_int a" using a(1) b(1) by (simp add: x_def pos_divide_le_eq mult_le_cancel_left1)
    also have "\<dots> < 2 powi 53" using int_in_normal_range(2) [OF a] .
    finally show ?thesis .
  qed
  have x_lo: "2 powi (- 1022) \<le> x"
  proof -
    have "(2::rat) powi (- 1022) \<le> 2 powi (- 53)" by (intro power_int_increasing) simp_all
    also have "\<dots> = 1 / 2 powi 53" by (simp add: power_int_minus_divide)
    also have "\<dots> \<le> 1 / of_int b"
      using int_in_normal_range(2) [OF b] bpos by (intro divide_left_mono) simp_all
    also have "\<dots> \<le> x" using a(1) bpos by (simp add: x_def divide_right_mono)
    finally show ?thesis .
  qed
  have cb: "a \<le> c * b" "(c - 1) * b < a" using ceil_div_bounds [OF b(1), of a] by (simp_all add: c_def)
  have x_le_c: "x \<le> of_int c"
  proof -
    have "(of_int a :: rat) \<le> of_int (c * b)" using cb(1) by (simp only: of_int_le_iff)
    then show ?thesis using bpos by (simp add: x_def pos_divide_le_eq)
  qed
  have e52: "e \<le> 52" using float64_round_normal(1) [OF x_lo x_hi] by (simp add: e_def)
  define s :: rat where "s = 2 powi (52 - e)"
  have s_pos: "0 < s" by (simp add: s_def)
  have b_small: "of_int b < 2 * s"
  proof -
    have "2 powi e * of_int b \<le> x * of_int b"
      using binary_exponent_bounds(1) [OF x_pos] bpos by (intro mult_right_mono) (simp_all add: e_def)
    also have "\<dots> < 2 powi 53" using int_in_normal_range(2) [OF a] by (simp add: xb)
    also have "\<dots> = 2 powi e * 2 powi (53 - e)" by (simp add: power_int_add [symmetric])
    finally have "of_int b < (2::rat) powi (53 - e)" by simp
    also have "\<dots> = 2 powi 1 * 2 powi (52 - e)" by (subst power_int_add [symmetric]) simp_all
    finally show ?thesis by (simp add: s_def)
  qed
  have gap: "of_int (c - 1) * s + 1 / 2 < x * s"
  proof -
    have "(c - 1) * b + 1 \<le> a" using cb(2) by simp
    then have "(of_int ((c - 1) * b + 1) :: rat) \<le> of_int a" by (simp only: of_int_le_iff)
    then have "of_int (c - 1) * of_int b + 1 \<le> x * of_int b" by (simp add: xb)
    then have "of_int (c - 1) + 1 / of_int b \<le> x"
      using bpos by (simp add: field_simps)
    then have "(of_int (c - 1) + 1 / of_int b) * s \<le> x * s"
      using s_pos by (intro mult_right_mono) simp_all
    then have "of_int (c - 1) * s + s / of_int b \<le> x * s"
      by (simp add: distrib_right)
    moreover have "1 / 2 < s / of_int b" using b_small bpos by (simp add: field_simps)
    ultimately show ?thesis by linarith
  qed
  obtain y where y: "float64_round x = Some y" "y \<le> of_int c"
    using float64_round_int_le [OF x_lo x_hi x_le_c] by auto
  obtain z where z: "float64_round x = Some z" "of_int (c - 1) < z"
    using float64_round_int_less [OF x_lo x_hi, of "c - 1"] gap by (auto simp: s_def e_def)
  have yz: "of_int c - 1 < y" using y z by simp
  have ceil: "\<lceil>y\<rceil> = c" using yz y(2) by (rule ceiling_unique)
  have c_pos: "0 < c"
  proof (rule ccontr)
    assume "\<not> 0 < c"
    then have "c * b \<le> 0" using b(1) by (simp add: mult_le_0_iff)
    then show False using cb(1) a(1) by simp
  qed
  have c_hi: "c \<le> a"
  proof (rule ccontr)
    assume "\<not> c \<le> a"
    then have "a \<le> c - 1" by simp
    then have "a * 1 \<le> (c - 1) * b" using b(1) a(1) by (intro mult_mono) simp_all
    then show False using cb(2) by simp
  qed
  have c63: "c < 2 ^ 63" using c_hi a(2) by simp
  have "float64_div (float64_of_int a) (float64_of_int b) = Some y"
    using float64_of_int_exact [OF a] float64_of_int_exact [OF b] y(1) b(1)
    by (simp add: float64_div_def x_def)
  then show ?thesis
    using ceil c_pos c63 by (simp add: totalChunks_of_def math_Ceil_def int_of_float64_def c_def [symmetric])
qed

lemma totalChunks_of_large: "totalChunks_of 9007199254740993 1048576 = 8589934592"
proof -
  have f: "\<lfloor>(9007199254740993::rat) / 2\<rfloor> = 4503599627370496"
    by (rule floor_unique) simp_all
  have a: "float64_of_int 9007199254740993 = Some 9007199254740992"
    unfolding float64_of_int_def
    by (subst float64_round_at [where e = 53]) (simp_all add: round_half_even_def Let_def f)
  have b: "float64_of_int 1048576 = Some 1048576"
    unfolding float64_of_int_def
    by (subst float64_round_at [where e = 20]) (simp_all add: round_half_even_def Let_def)
  have q: "float64_round 8589934592 = Some 8589934592"
    by (subst float64_round_at [where e = 33]) (simp_all add: round_half_even_def Let_def)
  show ?thesis
    by (simp add: totalChunks_of_def a b float64_div_def q math_Ceil_def int_of_float64_def)
qed

section \<open>The chunk plan\<close>

text \<open>
  Claim C6. For every file size above zero and every value the random source can return,
  the chunk size that \<open>calculateChunkSize\<close> produces is at least 1 and at most the file
  size; a selected size within the file size is returned as it is and lies between the
  configured minimum and maximum; a selected size above the file size is clamped to
  exactly the file size; and a file smaller than the configured minimum gets its own size
  as chunk size and a total of exactly one chunk.
\<close>

theorem calculateChunkSize_bounds:
  assumes "0 < fileSize" and "0 \<le> rnd" and "rnd \<le> maxChunkSize - minChunkSize"
  shows "1 \<le> calculateChunkSize rnd fileSize \<and> calculateChunkSize rnd fileSize \<le> fileSize
    \<and> (rnd + minChunkSize \<le> fileSize \<longrightarrow>
         calculateChunkSize rnd fileSize = rnd + minChunkSize
         \<and> minChunkSize \<le> calculateChunkSize rnd fileSize
         \<and> calculateChunkSize rnd fileSize \<le> maxChunkSize)
    \<and> (fileSize < rnd + minChunkSize \<longrightarrow> calculateChunkSize rnd fileSize = fileSize)
    \<and> (fileSize < minChunkSize \<longrightarrow>
         calculateChunkSize rnd fileSize = fileSize
         \<and> totalChunks_of fileSize (calculateChunkSize rnd fileSize) = 1)"
proof -
  have one: "totalChunks_of fileSize fileSize = 1" if "fileSize < minChunkSize"
  proof -
    have "fileSize < 2 ^ 53" using that by (simp add: minChunkSize_def)
    then have "totalChunks_of fileSize fileSize = (fileSize + fileSize - 1) div fileSize"
      using assms(1) by (intro totalChunks_of_exact) simp_all
    also have "\<dots> = 1"
      using assms(1) by (intro int_div_pos_eq [where r = "fileSize - 1"]) simp_all
    finally show ?thesis .
  qed
  show ?thesis
    using assms one by (auto simp: calculateChunkSize_def Let_def minChunkSize_def)
qed

theorem calculateChunkSize_bounds_witness:
  "(0::int) < 10 \<and> (0::int) \<le> 0 \<and> 0 \<le> maxChunkSize - minChunkSize
   \<and> calculateChunkSize 0 10 = 10 \<and> totalChunks_of 10 (calculateChunkSize 0 10) = 1"
  using calculateChunkSize_bounds [of 10 0]
  by (auto simp: minChunkSize_def maxChunkSize_def)

text \<open>
  Claim C5. The claim asks that the stored and returned \<open>TotalChunks\<close> be the exact
  integer ceiling of the file size over the chunk size for file sizes up to the whole
  64-bit range. Registering a file of \<open>2\<^sup>5\<^sup>3 + 1\<close> bytes when the random source selects a
  chunk size of \<open>2\<^sup>2\<^sup>0\<close> bytes stores and returns \<open>TotalChunks = 2\<^sup>3\<^sup>3\<close>, while the exact
  ceiling is \<open>2\<^sup>3\<^sup>3 + 1\<close>: the conversion of the file size to \<open>float64\<close> drops its last bit.
\<close>

theorem registerFileHandler_totalChunks_inexact:
  "registerFileHandler 1700000000000000000 946176
     \<lparr>Method = ''POST'', Path = ''/register_file'', Chunk_Hash = [], Body = [],
      Body_json = Some \<lparr>ID = [], FileName = ''big'', FileSize = 9007199254740993,
                        FileHash = ''h'', ChunkSize = 0, TotalChunks = 0\<rparr>\<rparr>
     \<lparr>filesMetadata = Map.empty, files = Map.empty\<rparr>
   = ((StatusOK,
       Registered \<lparr>ID = generateUniqueID 1700000000000000000, FileName = ''big'',
                   FileSize = 9007199254740993, FileHash = ''h'', ChunkSize = 1048576,
                   TotalChunks = 8589934592\<rparr>),
      \<lparr>filesMetadata = [generateUniqueID 1700000000000000000 \<mapsto>
          \<lparr>ID = generateUniqueID 1700000000000000000, FileName = ''big'',
           FileSize = 9007199254740993, FileHash = ''h'', ChunkSize = 1048576,
           TotalChunks = 8589934592\<rparr>],
       files = Map.empty\<rparr>)
   \<and> (9007199254740993 + 1048576 - 1) div 1048576 = (8589934593::int)"
  by (simp add: registerFileHandler_def calculateChunkSize_def minChunkSize_def Let_def
      totalChunks_of_large)

section \<open>Decimal numerals and paths\<close>

lemma digit_val_digit_char: "d < 10 \<Longrightarrow> digit_val (digit_char d) = Some d"
proof -
  assume "d < 10"
  then have "d \<in> {0, 1, 2, 3, 4, 5, 6, 7, 8, 9}" by auto
  then show ?thesis by (auto simp: digit_val_def digit_char_def)
qed

lemma digit_char_in: "d < 10 \<Longrightarrow> digit_char d \<in> set ''0123456789''"
  unfolding digit_char_def by (rule nth_mem) simp

lemma format_nat_not_Nil: "format_nat n \<noteq> []"
  by (subst format_nat.simps) simp

lemma set_format_nat: "set (format_nat n) \<subseteq> set ''0123456789''"
proof (induction n rule: format_nat.induct)
  case (1 n)
  show ?case
  proof (cases "n < 10")
    case True
    then show ?thesis using digit_char_in [of n] by (subst format_nat.simps) simp
  next
    case False
    have "n mod 10 < 10" by simp
    then have "digit_char (n mod 10) \<in> set ''0123456789''" by (rule digit_char_in)
    then show ?thesis using False 1 by (subst format_nat.simps) simp
  qed
qed

lemma parse_digits_snoc:
  "parse_digits acc (cs @ [c]) =
     (case parse_digits acc cs of
        None \<Rightarrow> None
      | Some v \<Rightarrow> (case digit_val c of None \<Rightarrow> None | Some d \<Rightarrow> Some (10 * v + d)))"
  by (induction cs arbitrary: acc) (auto split: option.splits)

lemma parse_digits_format_nat: "parse_digits 0 (format_nat n) = Some n"
proof (induction n rule: format_nat.induct)
  case (1 n)
  show ?case
  proof (cases "n < 10")
    case True
    then show ?thesis by (subst format_nat.simps) (simp add: digit_val_digit_char)
  next
    case False
    then show ?thesis
      using 1 by (subst format_nat.simps) (simp add: parse_digits_snoc digit_val_digit_char)
  qed
qed

lemma format_nat_inject:
  assumes "format_nat n = format_nat m"
  shows "n = m"
proof -
  have "Some n = parse_digits 0 (format_nat n)" by (simp only: parse_digits_format_nat)
  also have "\<dots> = parse_digits 0 (format_nat m)" by (simp only: assms)
  also have "\<dots> = Some m" by (simp only: parse_digits_format_nat)
  finally show ?thesis by simp
qed

lemma hd_format_nat: "hd (format_nat n) \<in> set ''0123456789''"
  using set_format_nat [of n] format_nat_not_Nil [of n] hd_in_set [of "format_nat n"] by blast

lemma FormatInt_inject:
  assumes eq: "FormatInt n = FormatInt m"
  shows "n = m"
proof -
  have ne: "CHR ''-'' # cs \<noteq> format_nat k" for k cs
    using hd_format_nat [of k] by (cases "format_nat k") auto
  consider "n < 0" "m < 0" | "n < 0" "0 \<le> m" | "0 \<le> n" "m < 0" | "0 \<le> n" "0 \<le> m"
    by linarith
  then show ?thesis
  proof cases
    case 1
    then have "format_nat (nat (- n)) = format_nat (nat (- m))"
      using eq by (simp add: FormatInt_def)
    then have "nat (- n) = nat (- m)" by (rule format_nat_inject)
    with 1 show ?thesis by simp
  next
    case 2
    then have "CHR ''-'' # format_nat (nat (- n)) = format_nat (nat m)"
      using eq by (simp add: FormatInt_def)
    then show ?thesis using ne by blast
  next
    case 3
    then have "CHR ''-'' # format_nat (nat (- m)) = format_nat (nat n)"
      using eq by (simp add: FormatInt_def)
    then show ?thesis using ne by blast
  next
    case 4
    then have "format_nat (nat n) = format_nat (nat m)"
      using eq by (simp add: FormatInt_def)
    then have "nat n = nat m" by (rule format_nat_inject)
    with 4 show ?thesis by simp
  qed
qed

lemma set_FormatInt: "set (FormatInt n) \<subseteq> set ''-0123456789''"
proof -
  have a: "set ''0123456789'' \<subseteq> set ''-0123456789''" by auto
  have b: "CHR ''-'' \<in> set ''-0123456789''" by simp
  have c: "set (format_nat k) \<subseteq> set ''-0123456789''" for k
    using set_format_nat [of k] a by (rule order_trans)
  show ?thesis
  proof (cases "n < 0")
    case True
    have "set (CHR ''-'' # format_nat (nat (- n))) = insert CHR ''-'' (set (format_nat (nat (- n))))"
      by (rule list.set(2))
    also have "\<dots> \<subseteq> set ''-0123456789''" using b c by (rule insert_subsetI)
    finally show ?thesis using True by (simp only: FormatInt_def if_True)
  next
    case False
    then show ?thesis using c by (simp only: FormatInt_def if_False)
  qed
qed

lemma FormatInt_not_Nil: "FormatInt n \<noteq> []"
  by (simp add: FormatInt_def format_nat_not_Nil)

lemma Atoi_FormatInt:
  assumes "0 \<le> n" and "n < 2 ^ 63"
  shows "Atoi (FormatInt n) = Some n"
proof -
  obtain c cs where f: "format_nat (nat n) = c # cs"
    using format_nat_not_Nil [of "nat n"] by (cases "format_nat (nat n)") auto
  have "c \<in> set ''0123456789''" using hd_format_nat [of "nat n"] f by simp
  then have c: "c \<noteq> CHR ''-''" "c \<noteq> CHR ''+''" by auto
  have p: "parse_digits 0 (c # cs) = Some (nat n)"
    using parse_digits_format_nat [of "nat n"] f by simp
  show ?thesis
    using assms c p by (simp add: Atoi_def FormatInt_def f del: parse_digits.simps)
qed

lemma strings_Split_no_sep: "sep \<notin> set a \<Longrightarrow> strings_Split a sep = [a]"
  by (induction a) auto

lemma strings_Split_append:
  "sep \<notin> set a \<Longrightarrow> strings_Split (a @ sep # b) sep = a # strings_Split b sep"
  by (induction a) auto

lemma chunkFileName_inject: "chunkFileName fileID i = chunkFileName fileID j \<Longrightarrow> i = j"
  by (auto simp: chunkFileName_def dest: FormatInt_inject)

lemma generateUniqueID_chars: "set (generateUniqueID now) \<subseteq> set ''-0123456789''"
  unfolding generateUniqueID_def by (rule set_FormatInt)

lemma chunkFileName_not_f:
  assumes "set fileID \<subseteq> set ''-0123456789''"
  shows "chunkFileName fileID i \<noteq> CHR ''f'' # cs"
proof (cases fileID)
  case Nil
  then show ?thesis by (simp add: chunkFileName_def)
next
  case (Cons c r)
  then have "c \<in> set ''-0123456789''" using assms by auto
  then have "c \<noteq> CHR ''f''" by auto
  then show ?thesis using Cons by (simp add: chunkFileName_def)
qed

lemma demo_chunk1: "chunkFileName ''7'' 1 = ''7_part_1''"
  by (simp add: chunkFileName_def FormatInt_def format_nat.simps digit_char_def)

lemma ReadFile_absent: "fs name = None \<Longrightarrow> ReadFile F fs name = None"
  by (simp add: ReadFile_def)

lemma updateFileInfoDB_absent:
  "fs ''fileInfoDB.json'' = None \<Longrightarrow> updateFileInfoDB L F metadata fs = (True, fs)"
  by (simp add: updateFileInfoDB_def ReadFile_absent)

lemma updateFileInfoDB_present:
  assumes "fs ''fileInfoDB.json'' = Some old"
    and "\<not> open_fails F ''fileInfoDB.json''" and "\<not> read_fails F ''fileInfoDB.json''"
    and "\<not> create_fails F ''fileInfoDB.json''" and "copy_fails F ''fileInfoDB.json'' = None"
  shows "updateFileInfoDB L F metadata fs =
           (False, fs(''fileInfoDB.json'' \<mapsto> json_Marshal L [metadata]))"
  using assms by (simp add: updateFileInfoDB_def ReadFile_def WriteFile_def)

section \<open>The reassembly loop\<close>

lemma reassemble_error_cases:
  "reassemble F fileID fin T i w fs = (Some err, w', fs') \<Longrightarrow>
     err = (StatusInternalServerError, Chunk_file_does_not_exist)
     \<or> (\<exists>j. err = (StatusInternalServerError, Error_opening_chunk_file j))
     \<or> err = (StatusInternalServerError, Error_writing_to_final_file)"
proof (induction F fileID fin T i w fs rule: reassemble.induct)
  case (1 F fileID fin T i w fs)
  from "1.prems" show ?case
    by (subst (asm) reassemble.simps)
      (auto simp: Let_def split: if_splits option.splits dest: "1.IH")
qed

lemma reassemble_None_stays:
  "reassemble F fileID fin T i w fs = (r, w', fs') \<Longrightarrow> n \<noteq> fin \<Longrightarrow> fs n = None \<Longrightarrow>
     fs' n = None"
proof (induction F fileID fin T i w fs rule: reassemble.induct)
  case (1 F fileID fin T i w fs)
  from "1.prems" show ?case
    by (subst (asm) reassemble.simps)
      (auto simp: Let_def split: if_splits option.splits dest!: "1.IH")
qed

lemma reassemble_removes:
  "reassemble F fileID fin T i w fs = (None, w', fs') \<Longrightarrow>
     \<forall>j. chunkFileName fileID j \<noteq> fin \<Longrightarrow> i \<le> j \<Longrightarrow> j \<le> T \<Longrightarrow>
     fs' (chunkFileName fileID j) = None"
proof (induction F fileID fin T i w fs rule: reassemble.induct)
  case (1 F fileID fin T i w fs)
  let ?name = "chunkFileName fileID i"
  from "1.prems"(3,4) have iT: "i \<le> T" by simp
  from "1.prems"(1) iT obtain d where
    d: "fs ?name = Some d" and op: "\<not> open_fails F ?name" and cp: "copy_fails F ?name = None"
    and rec: "reassemble F fileID fin T (i + 1) (w @ d) ((fs(fin \<mapsto> w @ d))(?name := None))
                = (None, w', fs')"
    by (subst (asm) reassemble.simps) (auto simp: Let_def split: if_splits option.splits)
  show ?case
  proof (cases "j = i")
    case True
    have "((fs(fin \<mapsto> w @ d))(?name := None)) ?name = None" by simp
    with rec "1.prems"(2) have "fs' ?name = None"
      by (intro reassemble_None_stays [OF rec]) simp_all
    then show ?thesis using True by simp
  next
    case False
    then have "i + 1 \<le> j" using "1.prems"(3) by simp
    then show ?thesis
      using "1.IH" [OF iT refl d op cp rec "1.prems"(2) _ "1.prems"(4)] by simp
  qed
qed

lemma reassemble_missing:
  assumes "reassemble F fileID fin T i w fs =
             (Some (StatusInternalServerError, Chunk_file_does_not_exist), w', fs')"
    and "\<forall>j. chunkFileName fileID j \<noteq> fin"
    and "fs fin = Some w"
  shows "\<exists>k. i \<le> k \<and> k \<le> T \<and> fs (chunkFileName fileID k) = None
           \<and> (\<forall>j. i \<le> j \<and> j < k \<longrightarrow> fs (chunkFileName fileID j) \<noteq> None)
           \<and> w' = w @ concat (map (\<lambda>j. the (fs (chunkFileName fileID j))) [i..k - 1])
           \<and> fs' fin = Some w'"
  using assms
proof (induction F fileID fin T i w fs rule: reassemble.induct)
  case (1 F fileID fin T i w fs)
  let ?name = "chunkFileName fileID i"
  from "1.prems"(1) have iT: "i \<le> T"
    by (subst (asm) reassemble.simps) (auto split: if_splits)
  show ?case
  proof (cases "fs ?name")
    case None
    with "1.prems"(1) iT have "w' = w" "fs' = fs"
      by (subst (asm) reassemble.simps, simp)+
    with None iT "1.prems"(3) show ?thesis
      by (intro exI [of _ i]) auto
  next
    case (Some d)
    let ?fs = "(fs(fin \<mapsto> w @ d))(?name := None)"
    from "1.prems"(1) iT Some have op: "\<not> open_fails F ?name" and cp: "copy_fails F ?name = None"
      and rec: "reassemble F fileID fin T (i + 1) (w @ d) ?fs
                  = (Some (StatusInternalServerError, Chunk_file_does_not_exist), w', fs')"
      by (subst (asm) reassemble.simps, auto simp: Let_def split: if_splits option.splits)+
    have "?name \<noteq> fin" using "1.prems"(2) by blast
    then have fin: "?fs fin = Some (w @ d)" by auto
    from "1.IH" [OF iT refl Some op cp rec "1.prems"(2) fin]
    obtain k where k: "i + 1 \<le> k" "k \<le> T" "?fs (chunkFileName fileID k) = None"
      "\<forall>j. i + 1 \<le> j \<and> j < k \<longrightarrow> ?fs (chunkFileName fileID j) \<noteq> None"
      "w' = (w @ d) @ concat (map (\<lambda>j. the (?fs (chunkFileName fileID j))) [i + 1..k - 1])"
      "fs' fin = Some w'"
      by blast
    have other: "?fs (chunkFileName fileID j) = fs (chunkFileName fileID j)" if "i + 1 \<le> j" for j
    proof -
      have "chunkFileName fileID j \<noteq> ?name" using that chunkFileName_inject [of fileID j i] by auto
      then show ?thesis using "1.prems"(2) by simp
    qed
    have m: "map (\<lambda>j. the (?fs (chunkFileName fileID j))) [i + 1..k - 1]
           = map (\<lambda>j. the (fs (chunkFileName fileID j))) [i + 1..k - 1]"
    proof (rule map_cong [OF refl])
      fix j assume "j \<in> set [i + 1..k - 1]"
      then have "i + 1 \<le> j" by simp
      then show "the (?fs (chunkFileName fileID j)) = the (fs (chunkFileName fileID j))"
        by (simp only: other)
    qed
    have up: "[i..k - 1] = i # [i + 1..k - 1]" using k(1) by (simp add: upto_rec1)
    have "fs (chunkFileName fileID k) = None" using k(1,3) other by simp
    moreover have "\<forall>j. i \<le> j \<and> j < k \<longrightarrow> fs (chunkFileName fileID j) \<noteq> None"
    proof (intro allI impI)
      fix j assume j: "i \<le> j \<and> j < k"
      show "fs (chunkFileName fileID j) \<noteq> None"
      proof (cases "j = i")
        case True then show ?thesis using Some by simp
      next
        case False
        then have "i + 1 \<le> j" using j by simp
        then show ?thesis using k(4) j other by simp
      qed
    qed
    moreover have "w' = w @ concat (map (\<lambda>j. the (fs (chunkFileName fileID j))) [i..k - 1])"
    proof -
      have "w' = (w @ d) @ concat (map (\<lambda>j. the (fs (chunkFileName fileID j))) [i + 1..k - 1])"
        using k(5) by (simp only: m)
      then show ?thesis by (simp add: up Some)
    qed
    ultimately show ?thesis using k(1,2,6) by (intro exI [of _ k]) simp
  qed
qed

lemma demo_hash_simps:
  "demo_hash ''abc'' = ''3:abc''" "demo_hash ''abX'' = ''3:abX''"
  by (simp_all add: demo_hash_def FormatInt_def format_nat.simps digit_char_def)

lemma Atoi_1: "Atoi ''1'' = Some 1"
  by (simp add: Atoi_def digit_val_def)


lemma reassemble_step:
  assumes "i \<le> T" and "fs (chunkFileName fileID i) = Some d"
    and "\<not> open_fails F (chunkFileName fileID i)" and "copy_fails F (chunkFileName fileID i) = None"
  shows "reassemble F fileID fin T i w fs =
           reassemble F fileID fin T (i + 1) (w @ d)
             ((fs(fin \<mapsto> w @ d))(chunkFileName fileID i := None))"
  using assms by (subst reassemble.simps) simp

lemma reassemble_gap:
  assumes "i \<le> T" and "fs (chunkFileName fileID i) = None"
  shows "reassemble F fileID fin T i w fs =
           (Some (StatusInternalServerError, Chunk_file_does_not_exist), w, fs)"
  using assms by (subst reassemble.simps) simp

lemma reassemble_done: "T < i \<Longrightarrow> reassemble F fileID fin T i w fs = (None, w, fs)"
  by (subst reassemble.simps) simp

lemma no_faults_simps [simp]:
  "\<not> create_fails no_faults x" "\<not> open_fails no_faults x" "\<not> read_fails no_faults x"
  "copy_fails no_faults x = None" "\<not> sync_fails no_faults x"
  by (simp_all add: no_faults_def)

lemma demo_metadata_simps [simp]:
  "ID demo_metadata = ''7''" "FileName demo_metadata = ''a.txt''"
  "FileHash demo_metadata = ''3:abc''" "TotalChunks demo_metadata = 1"
  by (simp_all add: demo_metadata_def demo_hash_simps)

lemma demo_lib_hash [simp]: "sha256_hex demo_lib = demo_hash"
  by (simp add: demo_lib_def)

text \<open>One chunk, present: what \<open>completeUploadHandler\<close> does up to the digest comparison.\<close>

lemma demo_reassemble_one:
  assumes "fs ''7_part_1'' = Some d"
  shows "reassemble no_faults ''7'' ''final_a.txt'' 1 1 [] (fs(''final_a.txt'' \<mapsto> []))
           = (None, d, (fs(''final_a.txt'' \<mapsto> d))(''7_part_1'' := None))"
proof -
  have "reassemble no_faults ''7'' ''final_a.txt'' 1 1 [] (fs(''final_a.txt'' \<mapsto> []))
      = reassemble no_faults ''7'' ''final_a.txt'' 1 (1 + 1) ([] @ d)
          (((fs(''final_a.txt'' \<mapsto> []))(''final_a.txt'' \<mapsto> [] @ d))(chunkFileName ''7'' 1 := None))"
    by (rule reassemble_step) (simp_all add: demo_chunk1 assms)
  also have "\<dots> = (None, [] @ d,
      ((fs(''final_a.txt'' \<mapsto> []))(''final_a.txt'' \<mapsto> [] @ d))(chunkFileName ''7'' 1 := None))"
    by (rule reassemble_done) simp
  finally show ?thesis by (simp add: demo_chunk1)
qed

section \<open>The ledger\<close>

lemma demo_complete_with_ledger:
  "completeUploadHandler demo_lib no_faults demo_complete demo_server =
     ((StatusOK, OK),
      demo_server\<lparr>files := ((files demo_server)(''final_a.txt'' \<mapsto> ''abc'', ''7_part_1'' := None))
         (''fileInfoDB.json'' \<mapsto> json_Marshal demo_lib [demo_metadata])\<rparr>)"
proof -
  have re: "reassemble no_faults ''7'' ''final_a.txt'' 1 1 [] ((files demo_server)(''final_a.txt'' \<mapsto> []))
      = (None, ''abc'', ((files demo_server)(''final_a.txt'' \<mapsto> ''abc''))(''7_part_1'' := None))"
    by (rule demo_reassemble_one) (simp add: demo_server_def)
  have up: "updateFileInfoDB demo_lib no_faults demo_metadata
        (((files demo_server)(''final_a.txt'' \<mapsto> ''abc''))(''7_part_1'' := None))
      = (False, (((files demo_server)(''final_a.txt'' \<mapsto> ''abc''))(''7_part_1'' := None))
           (''fileInfoDB.json'' \<mapsto> json_Marshal demo_lib [demo_metadata]))"
    by (rule updateFileInfoDB_present [where old = "json_Marshal demo_lib [demo_earlier]"])
      (simp_all add: demo_server_def)
  have md: "filesMetadata demo_server ''7'' = Some demo_metadata" by (simp add: demo_server_def)
  show ?thesis
    unfolding completeUploadHandler_def
    by (simp add: demo_complete_def md re demo_hash_simps up del: fun_upd_apply)
qed

lemma demo_complete_without_ledger:
  "completeUploadHandler demo_lib no_faults demo_complete demo_server_no_ledger =
     ((StatusInternalServerError, Error_updating_fileInfoDB),
      demo_server_no_ledger\<lparr>files :=
        (files demo_server_no_ledger)(''final_a.txt'' \<mapsto> ''abc'', ''7_part_1'' := None)\<rparr>)"
proof -
  have re: "reassemble no_faults ''7'' ''final_a.txt'' 1 1 []
        ((files demo_server_no_ledger)(''final_a.txt'' \<mapsto> []))
      = (None, ''abc'', ((files demo_server_no_ledger)(''final_a.txt'' \<mapsto> ''abc''))(''7_part_1'' := None))"
    by (rule demo_reassemble_one) (simp add: demo_server_no_ledger_def)
  have up: "updateFileInfoDB demo_lib no_faults demo_metadata
        (((files demo_server_no_ledger)(''final_a.txt'' \<mapsto> ''abc''))(''7_part_1'' := None))
      = (True, ((files demo_server_no_ledger)(''final_a.txt'' \<mapsto> ''abc''))(''7_part_1'' := None))"
    by (rule updateFileInfoDB_absent) (simp add: demo_server_no_ledger_def)
  have md: "filesMetadata demo_server_no_ledger ''7'' = Some demo_metadata"
    by (simp add: demo_server_no_ledger_def)
  show ?thesis
    unfolding completeUploadHandler_def
    by (simp add: demo_complete_def md re demo_hash_simps up del: fun_upd_apply)
qed

text \<open>
  Claim C2. The claim asks that a successful completion append exactly one record to the
  ledger and leave every record appended before in place. When the ledger file holds the
  record of an earlier completion, a successful completion replaces the whole file by the
  encoding of the new record alone: \<open>updateFileInfoDB\<close> reads the file but never decodes
  what it read, so the slice it appends to is empty.
\<close>

theorem completion_overwrites_ledger:
  "files demo_server ''fileInfoDB.json'' = Some (json_Marshal demo_lib [demo_earlier])
   \<and> fst (completeUploadHandler demo_lib no_faults demo_complete demo_server) = (StatusOK, OK)
   \<and> files (snd (completeUploadHandler demo_lib no_faults demo_complete demo_server))
        ''fileInfoDB.json'' = Some (json_Marshal demo_lib [demo_metadata])
   \<and> json_Marshal demo_lib [demo_metadata] \<noteq> json_Marshal demo_lib [demo_earlier, demo_metadata]"
  by (simp add: demo_complete_with_ledger)
    (simp add: demo_server_def demo_lib_def demo_record_def demo_metadata_def demo_earlier_def)

text \<open>
  Claim C4. The claim asks that a missing ledger file be treated as an empty ledger, so
  that the completion still reports success. With every chunk present, the whole-file
  digest matching and no ledger file on disk, \<open>completeUploadHandler\<close> answers with the
  server error of a failed ledger update, and no ledger file is created: \<open>updateFileInfoDB\<close>
  returns the error of the failed read.
\<close>

theorem completion_fails_without_ledger:
  "files demo_server_no_ledger ''fileInfoDB.json'' = None
   \<and> fst (completeUploadHandler demo_lib no_faults demo_complete demo_server_no_ledger)
       = (StatusInternalServerError, Error_updating_fileInfoDB)
   \<and> files (snd (completeUploadHandler demo_lib no_faults demo_complete demo_server_no_ledger))
        ''final_a.txt'' = Some ''abc''
   \<and> files (snd (completeUploadHandler demo_lib no_faults demo_complete demo_server_no_ledger))
        ''fileInfoDB.json'' = None"
  by (simp add: demo_complete_without_ledger) (simp add: demo_server_no_ledger_def)

section \<open>Receiving a chunk\<close>

lemma demo_upload_corrupt_run:
  "uploadChunkHandler demo_lib no_faults demo_upload_corrupt demo_server_registered =
     ((StatusBadRequest, Chunk_hash_mismatch),
      demo_server_registered\<lparr>files := (files demo_server_registered)(''7_part_1'' \<mapsto> ''abX'')\<rparr>)"
  unfolding uploadChunkHandler_def
  by (simp add: demo_upload_corrupt_def Atoi_1 demo_chunk1 demo_hash_simps del: fun_upd_apply)

lemma demo_complete_after_corrupt:
  "completeUploadHandler demo_lib no_faults demo_complete
     (demo_server_registered\<lparr>files := (files demo_server_registered)(''7_part_1'' \<mapsto> ''abX'')\<rparr>) =
     ((StatusBadRequest, Final_file_hash_mismatch),
      demo_server_registered\<lparr>files :=
        (files demo_server_registered)(''7_part_1'' \<mapsto> ''abX'', ''final_a.txt'' \<mapsto> ''abX'',
           ''7_part_1'' := None)\<rparr>)"
proof -
  have re: "reassemble no_faults ''7'' ''final_a.txt'' 1 1 []
        ((files demo_server_registered)(''7_part_1'' \<mapsto> ''abX'', ''final_a.txt'' \<mapsto> []))
      = (None, ''abX'', ((files demo_server_registered)(''7_part_1'' \<mapsto> ''abX'',
            ''final_a.txt'' \<mapsto> ''abX''))(''7_part_1'' := None))"
    by (rule demo_reassemble_one) simp
  have md: "filesMetadata demo_server_registered ''7'' = Some demo_metadata"
    by (simp add: demo_server_registered_def)
  show ?thesis
    unfolding completeUploadHandler_def
    by (simp add: demo_complete_def md re demo_hash_simps del: fun_upd_apply)
qed

text \<open>
  Claim C3, as stated, fails. A chunk whose body does not match the claimed digest is
  rejected, but the chunk file stays on disk holding the rejected bytes, and a later
  completion folds them into the destination file: the stored chunk is neither deleted
  nor unusable.
\<close>

theorem rejected_chunk_is_kept:
  "fst (uploadChunkHandler demo_lib no_faults demo_upload_corrupt demo_server_registered)
     = (StatusBadRequest, Chunk_hash_mismatch)
   \<and> files (snd (uploadChunkHandler demo_lib no_faults demo_upload_corrupt demo_server_registered))
        ''7_part_1'' = Some ''abX''
   \<and> files (snd (completeUploadHandler demo_lib no_faults demo_complete
        (snd (uploadChunkHandler demo_lib no_faults demo_upload_corrupt demo_server_registered))))
        ''final_a.txt'' = Some ''abX''"
  by (simp add: demo_upload_corrupt_run demo_complete_after_corrupt)

text \<open>
  Claim C3, amended. When a chunk request is well formed, the chunk file is written
  without an I/O failure and the digest computed over the body differs from the claimed
  digest, the handler answers with the client-error status and the message of a chunk
  hash mismatch, the chunk file of that id and sequence number holds the bytes received,
  and the metadata table and every other file are as before.
\<close>

theorem uploadChunkHandler_hash_mismatch:
  assumes "Method r = ''POST''"
    and "4 \<le> length (strings_Split (Path r) CHR ''/'')"
    and "Chunk_Hash r \<noteq> []"
    and "Atoi (strings_Split (Path r) CHR ''/'' ! 3) = Some num"
    and "\<not> create_fails F (chunkFileName (strings_Split (Path r) CHR ''/'' ! 2) num)"
    and "copy_fails F (chunkFileName (strings_Split (Path r) CHR ''/'' ! 2) num) = None"
    and "sha256_hex L (Body r) \<noteq> Chunk_Hash r"
  shows "uploadChunkHandler L F r s =
           ((StatusBadRequest, Chunk_hash_mismatch),
            s\<lparr>files := (files s)(chunkFileName (strings_Split (Path r) CHR ''/'' ! 2) num
                                   \<mapsto> Body r)\<rparr>)
       \<and> files (snd (uploadChunkHandler L F r s))
             (chunkFileName (strings_Split (Path r) CHR ''/'' ! 2) num) = Some (Body r)
       \<and> filesMetadata (snd (uploadChunkHandler L F r s)) = filesMetadata s"
  using assms by (simp add: uploadChunkHandler_def Let_def)

theorem uploadChunkHandler_hash_mismatch_witness:
  "Method demo_upload_corrupt = ''POST''
   \<and> sha256_hex demo_lib (Body demo_upload_corrupt) \<noteq> Chunk_Hash demo_upload_corrupt
   \<and> uploadChunkHandler demo_lib no_faults demo_upload_corrupt demo_server_registered =
       ((StatusBadRequest, Chunk_hash_mismatch),
        demo_server_registered\<lparr>files := (files demo_server_registered)(''7_part_1'' \<mapsto> ''abX'')\<rparr>)"
  using uploadChunkHandler_hash_mismatch [of demo_upload_corrupt 1 no_faults demo_lib
      demo_server_registered]
  by (simp add: demo_upload_corrupt_def Atoi_1 demo_chunk1 demo_hash_simps del: fun_upd_apply)

section \<open>Status codes\<close>

text \<open>
  Claim C7, as stated, fails: a completion request for an id that is not in the metadata
  table is answered with the client-error status, not a server-error status.
\<close>

theorem missing_metadata_is_client_error:
  "completeUploadHandler demo_lib no_faults demo_complete_unknown demo_server
     = ((StatusBadRequest, File_metadata_not_found), demo_server)"
  unfolding completeUploadHandler_def
  by (simp add: demo_complete_unknown_def demo_server_def)

section \<open>The sender\<close>

text \<open>
  Claim C10. For a file of size 0 the client exits with the message that the file is
  empty, and the world is as before: no request has been added to those sent and the
  state of the server is unchanged, whatever the server would have answered.
\<close>

theorem client_main_empty_file:
  "client_main L F now rnd fileName (Some []) w = (Exit ''File is empty'', w)"
  by (simp add: client_main_def)

section \<open>Completing twice, completing with a chunk missing\<close>

lemma updateFileInfoDB_other:
  "updateFileInfoDB L F metadata fs = (e, fs') \<Longrightarrow> n \<noteq> ''fileInfoDB.json'' \<Longrightarrow> fs' n = fs n"
  by (auto simp: updateFileInfoDB_def WriteFile_def Let_def split: option.splits if_splits)

lemma chunk_not_f [simp]: "chunkFileName (generateUniqueID now) j \<noteq> CHR ''f'' # cs"
  using generateUniqueID_chars by (rule chunkFileName_not_f)

lemma chunk_not_final:
  "chunkFileName (generateUniqueID now) j \<noteq> ''final_'' @ name"
  using chunkFileName_not_f [OF generateUniqueID_chars, of now j "''inal_'' @ name"] by simp

lemma chunk_not_ledger:
  "chunkFileName (generateUniqueID now) j \<noteq> ''fileInfoDB.json''"
  using chunkFileName_not_f [OF generateUniqueID_chars, of now j "''ileInfoDB.json''"] by simp

lemma completeUploadHandler_OK_D:
  assumes "completeUploadHandler L F r s = ((StatusOK, OK), s')"
    and "filesMetadata s (strings_Split (Path r) CHR ''/'' ! 2) = Some m"
  shows "\<exists>w fs1 fs2.
           reassemble F (strings_Split (Path r) CHR ''/'' ! 2) (''final_'' @ FileName m)
             (TotalChunks m) 1 [] ((files s)(''final_'' @ FileName m \<mapsto> [])) = (None, w, fs1)
           \<and> updateFileInfoDB L F m fs1 = (False, fs2)
           \<and> 3 \<le> length (strings_Split (Path r) CHR ''/'')
           \<and> strings_Split (Path r) CHR ''/'' ! 2 = ID m
           \<and> s' = s\<lparr>files := fs2\<rparr>"
  using assms
  by (auto simp: completeUploadHandler_def Let_def
      split: if_splits option.splits prod.splits bool.splits
      dest!: reassemble_error_cases)

lemma completeUploadHandler_missing_D:
  assumes "completeUploadHandler L F r s =
             ((StatusInternalServerError, Chunk_file_does_not_exist), s')"
    and "filesMetadata s (strings_Split (Path r) CHR ''/'' ! 2) = Some m"
  shows "\<exists>w.
           reassemble F (strings_Split (Path r) CHR ''/'' ! 2) (''final_'' @ FileName m)
             (TotalChunks m) 1 [] ((files s)(''final_'' @ FileName m \<mapsto> []))
             = (Some (StatusInternalServerError, Chunk_file_does_not_exist), w, files s')
           \<and> strings_Split (Path r) CHR ''/'' ! 2 = ID m"
  using assms
  by (auto simp: completeUploadHandler_def Let_def
      split: if_splits option.splits prod.splits bool.splits)

text \<open>
  Claim C8. When a completion request for an id issued by \<open>generateUniqueID\<close> has
  succeeded and the registered total of chunks is at least 1, a second completion request
  for the same id never reports success, whatever the I/O failures of the second call;
  and unless creating the destination file fails, it is answered with the server error
  saying that a chunk file does not exist.
\<close>

theorem complete_twice_fails:
  assumes "completeUploadHandler L F r s = ((StatusOK, OK), s')"
    and "strings_Split (Path r) CHR ''/'' ! 2 = generateUniqueID now"
    and "filesMetadata s (generateUniqueID now) = Some m"
    and "1 \<le> TotalChunks m"
  shows "fst (fst (completeUploadHandler L F' r s')) \<noteq> StatusOK
       \<and> (\<not> create_fails F' (''final_'' @ FileName m) \<longrightarrow>
            fst (completeUploadHandler L F' r s')
              = (StatusInternalServerError, Chunk_file_does_not_exist))"
proof -
  let ?id = "generateUniqueID now"
  let ?fin = "''final_'' @ FileName m"
  let ?c1 = "chunkFileName ?id 1"
  from completeUploadHandler_OK_D [OF assms(1)] assms(2,3)
  obtain w fs1 fs2 where
    re: "reassemble F ?id ?fin (TotalChunks m) 1 [] ((files s)(?fin \<mapsto> [])) = (None, w, fs1)"
    and up: "updateFileInfoDB L F m fs1 = (False, fs2)"
    and len: "3 \<le> length (strings_Split (Path r) CHR ''/'')"
    and idm: "?id = ID m"
    and s': "s' = s\<lparr>files := fs2\<rparr>"
    by auto
  have nf: "\<forall>j. chunkFileName ?id j \<noteq> ?fin" by (intro allI chunk_not_final)
  have "fs1 ?c1 = None"
    using reassemble_removes [OF re nf _ assms(4)] by simp
  then have gone: "fs2 ?c1 = None"
    using updateFileInfoDB_other [OF up, of ?c1] by (simp add: chunk_not_ledger)
  have gap: "reassemble F' ?id ?fin (TotalChunks m) 1 [] (fs2(?fin \<mapsto> []))
      = (Some (StatusInternalServerError, Chunk_file_does_not_exist), [], fs2(?fin \<mapsto> []))"
    using assms(4) gone by (intro reassemble_gap) (simp_all add: chunk_not_final)
  have "completeUploadHandler L F' r s' =
      (if create_fails F' ?fin then ((StatusInternalServerError, Error_creating_final_file), s')
       else ((StatusInternalServerError, Chunk_file_does_not_exist), s'\<lparr>files := fs2(?fin \<mapsto> [])\<rparr>))"
    using len assms(2,3) idm gap by (simp add: completeUploadHandler_def Let_def s')
  then show ?thesis by simp
qed

theorem complete_twice_fails_witness:
  "completeUploadHandler demo_lib no_faults demo_complete demo_server =
     ((StatusOK, OK),
      demo_server\<lparr>files := ((files demo_server)(''final_a.txt'' \<mapsto> ''abc'', ''7_part_1'' := None))
         (''fileInfoDB.json'' \<mapsto> json_Marshal demo_lib [demo_metadata])\<rparr>)
   \<and> fst (completeUploadHandler demo_lib no_faults demo_complete
        (demo_server\<lparr>files := ((files demo_server)(''final_a.txt'' \<mapsto> ''abc'', ''7_part_1'' := None))
         (''fileInfoDB.json'' \<mapsto> json_Marshal demo_lib [demo_metadata])\<rparr>))
     = (StatusInternalServerError, Chunk_file_does_not_exist)"
proof -
  have i: "generateUniqueID 7 = ''7''"
    by (simp add: generateUniqueID_def FormatInt_def format_nat.simps digit_char_def)
  have p: "strings_Split (Path demo_complete) CHR ''/'' ! 2 = generateUniqueID 7"
    by (simp add: demo_complete_def i)
  have md: "filesMetadata demo_server (generateUniqueID 7) = Some demo_metadata"
    by (simp add: demo_server_def i)
  have t: "1 \<le> TotalChunks demo_metadata" by simp
  from complete_twice_fails [OF demo_complete_with_ledger p md t, of no_faults]
  show ?thesis by (simp add: demo_complete_with_ledger)
qed


lemma takeWhile_upto:
  assumes "i \<le> k" and "k \<le> T" and "\<not> P k" and "\<forall>j. i \<le> j \<and> j < k \<longrightarrow> P j"
  shows "takeWhile P [i..T] = [i..k - 1]"
proof -
  have "[i..T] = [i..k - 1] @ k # [k + 1..T]" using assms(1,2) by (rule upto_split3)
  then have "takeWhile P [i..T] = takeWhile P [i..k - 1]"
    using assms(3) by (simp add: takeWhile_tail)
  also have "\<dots> = [i..k - 1]" using assms(4) by simp
  finally show ?thesis .
qed

text \<open>
  Claim C9. When a completion request for an id issued by \<open>generateUniqueID\<close> that is in
  the metadata table is answered with the error that a chunk file does not exist, the
  destination file named from the registered file name exists afterwards and holds
  exactly the chunks that precede the first missing one, in order, and those are fewer
  than the registered total: the destination was created and truncated before any chunk
  was looked for, so what it held before the request is gone; with the first chunk missing
  it is left empty.
\<close>

theorem complete_missing_chunk_destination:
  assumes "completeUploadHandler L F r s =
             ((StatusInternalServerError, Chunk_file_does_not_exist), s')"
    and "strings_Split (Path r) CHR ''/'' ! 2 = generateUniqueID now"
    and "filesMetadata s (generateUniqueID now) = Some m"
  shows "files s' (''final_'' @ FileName m) =
           Some (concat (map (\<lambda>j. the (files s (chunkFileName (generateUniqueID now) j)))
                   (chunks_present (files s) (generateUniqueID now) (TotalChunks m))))
       \<and> int (length (chunks_present (files s) (generateUniqueID now) (TotalChunks m)))
           < TotalChunks m"
proof -
  let ?id = "generateUniqueID now"
  let ?fin = "''final_'' @ FileName m"
  let ?fs0 = "(files s)(?fin \<mapsto> [])"
  from completeUploadHandler_missing_D [OF assms(1)] assms(2,3)
  obtain w where
    re: "reassemble F ?id ?fin (TotalChunks m) 1 [] ?fs0
           = (Some (StatusInternalServerError, Chunk_file_does_not_exist), w, files s')"
    by auto
  have nf: "\<forall>j. chunkFileName ?id j \<noteq> ?fin" by (intro allI chunk_not_final)
  have same: "?fs0 (chunkFileName ?id j) = files s (chunkFileName ?id j)" for j
    using nf by simp
  from reassemble_missing [OF re nf]
  obtain k where k: "1 \<le> k" "k \<le> TotalChunks m" "files s (chunkFileName ?id k) = None"
    "\<forall>j. 1 \<le> j \<and> j < k \<longrightarrow> files s (chunkFileName ?id j) \<noteq> None"
    "w = concat (map (\<lambda>j. the (files s (chunkFileName ?id j))) [1..k - 1])"
    "files s' ?fin = Some w"
    unfolding same by auto
  have cp: "chunks_present (files s) ?id (TotalChunks m) = [1..k - 1]"
    unfolding chunks_present_def using k(1,2) _ k(4) by (rule takeWhile_upto) (simp add: k(3))
  have "length [1..k - 1] = nat (k - 1)" using k(1) by simp
  then have "int (length [1..k - 1]) < TotalChunks m" using k(1,2) by simp
  then show ?thesis using k(5,6) by (simp only: cp)
qed

lemma demo_complete_gap_run:
  "completeUploadHandler demo_lib no_faults demo_complete_gap demo_server_gap =
     ((StatusInternalServerError, Chunk_file_does_not_exist),
      demo_server_gap\<lparr>files := (files demo_server_gap)(''final_c.txt'' \<mapsto> ''abc'',
         ''8_part_1'' := None)\<rparr>)"
proof -
  have c1: "chunkFileName ''8'' 1 = ''8_part_1''" and c2: "chunkFileName ''8'' 2 = ''8_part_2''"
    by (simp_all add: chunkFileName_def FormatInt_def format_nat.simps digit_char_def)
  let ?fs0 = "(files demo_server_gap)(''final_c.txt'' \<mapsto> [])"
  let ?fs1 = "(?fs0(''final_c.txt'' \<mapsto> [] @ ''abc''))(chunkFileName ''8'' 1 := None)"
  have "reassemble no_faults ''8'' ''final_c.txt'' 2 1 [] ?fs0
      = reassemble no_faults ''8'' ''final_c.txt'' 2 (1 + 1) ([] @ ''abc'') ?fs1"
    by (rule reassemble_step) (simp_all add: c1 demo_server_gap_def)
  also have "\<dots> = (Some (StatusInternalServerError, Chunk_file_does_not_exist), [] @ ''abc'', ?fs1)"
    by (rule reassemble_gap) (simp_all add: c1 c2 demo_server_gap_def)
  finally have re: "reassemble no_faults ''8'' ''final_c.txt'' 2 1 [] ?fs0
      = (Some (StatusInternalServerError, Chunk_file_does_not_exist), ''abc'',
         (files demo_server_gap)(''final_c.txt'' \<mapsto> ''abc'', ''8_part_1'' := None))"
    by (simp add: c1)
  have md: "filesMetadata demo_server_gap ''8'' = Some demo_metadata_gap"
    by (simp add: demo_server_gap_def)
  show ?thesis
    unfolding completeUploadHandler_def
    by (simp add: demo_complete_gap_def md demo_metadata_gap_def re del: fun_upd_apply)
qed

theorem complete_missing_chunk_destination_witness:
  "completeUploadHandler demo_lib no_faults demo_complete_gap demo_server_gap =
     ((StatusInternalServerError, Chunk_file_does_not_exist),
      demo_server_gap\<lparr>files := (files demo_server_gap)(''final_c.txt'' \<mapsto> ''abc'',
         ''8_part_1'' := None)\<rparr>)
   \<and> files demo_server_gap ''final_c.txt'' = Some ''earlier content''
   \<and> chunks_present (files demo_server_gap) ''8'' 2 = [1]
   \<and> files (demo_server_gap\<lparr>files := (files demo_server_gap)(''final_c.txt'' \<mapsto> ''abc'',
         ''8_part_1'' := None)\<rparr>) ''final_c.txt'' = Some ''abc''"
proof -
  have i: "generateUniqueID 8 = ''8''"
    by (simp add: generateUniqueID_def FormatInt_def format_nat.simps digit_char_def)
  have p: "strings_Split (Path demo_complete_gap) CHR ''/'' ! 2 = generateUniqueID 8"
    by (simp add: demo_complete_gap_def i)
  have md: "filesMetadata demo_server_gap (generateUniqueID 8) = Some demo_metadata_gap"
    by (simp add: demo_server_gap_def i)
  have c1: "chunkFileName ''8'' 1 = ''8_part_1''" and c2: "chunkFileName ''8'' 2 = ''8_part_2''"
    by (simp_all add: chunkFileName_def FormatInt_def format_nat.simps digit_char_def)
  have u: "[1..2::int] = [1, 2]" by (simp add: upto_rec1)
  have cp: "chunks_present (files demo_server_gap) ''8'' 2 = [1]"
    by (simp add: chunks_present_def u c1 c2 demo_server_gap_def)
  from complete_missing_chunk_destination [OF demo_complete_gap_run p md]
  show ?thesis
    by (simp add: demo_complete_gap_run i cp) (simp add: demo_server_gap_def)
qed

section \<open>A whole transfer\<close>

lemma upload_path_parts:
  assumes "CHR ''/'' \<notin> set fileID"
  shows "strings_Split (''/upload_chunk/'' @ fileID @ ''/'' @ FormatInt j) CHR ''/''
           = ['''', ''upload_chunk'', fileID, FormatInt j]"
proof -
  have n: "CHR ''/'' \<notin> set (FormatInt j)" using set_FormatInt [of j] by auto
  have "strings_Split (fileID @ CHR ''/'' # FormatInt j) CHR ''/'' = [fileID, FormatInt j]"
    using assms n by (simp add: strings_Split_append strings_Split_no_sep)
  then show ?thesis by simp
qed

lemma complete_path_parts:
  assumes "CHR ''/'' \<notin> set fileID"
  shows "strings_Split (''/complete_upload/'' @ fileID) CHR ''/''
           = ['''', ''complete_upload'', fileID]"
  using assms by (simp add: strings_Split_no_sep)

lemma generateUniqueID_no_slash: "CHR ''/'' \<notin> set (generateUniqueID now)"
  using generateUniqueID_chars [of now] by auto

lemma sendChunk_accepted:
  assumes "CHR ''/'' \<notin> set fileID" and "0 \<le> j" and "j < 2 ^ 63" and "sha256_hex L d \<noteq> []"
  shows "sendChunk L no_faults fileID j d (sha256_hex L d) w =
           (False,
            \<lparr>srv = (srv w)\<lparr>files := (files (srv w))(chunkFileName fileID j \<mapsto> d)\<rparr>,
             sent = sent w @ [\<lparr>Method = ''POST'',
               Path = ''/upload_chunk/'' @ fileID @ ''/'' @ FormatInt j,
               Chunk_Hash = sha256_hex L d, Body = d, Body_json = None\<rparr>]\<rparr>)"
proof -
  define r where "r = \<lparr>Method = ''POST'',
      Path = ''/upload_chunk/'' @ fileID @ ''/'' @ FormatInt j,
      Chunk_Hash = sha256_hex L d, Body = d, Body_json = None\<rparr>"
  have sel: "Method r = ''POST''" "Chunk_Hash r = sha256_hex L d" "Body r = d"
    by (simp_all add: r_def)
  have parts: "strings_Split (Path r) CHR ''/'' = ['''', ''upload_chunk'', fileID, FormatInt j]"
    using upload_path_parts [OF assms(1), of j] by (simp add: r_def)
  have h: "uploadChunkHandler L no_faults r (srv w) =
      ((StatusOK, OK), (srv w)\<lparr>files := (files (srv w))(chunkFileName fileID j \<mapsto> d)\<rparr>)"
    using assms(2,3,4)
    by (simp add: uploadChunkHandler_def parts sel Atoi_FormatInt del: fun_upd_apply)
  show ?thesis
    unfolding sendChunk_def r_def [symmetric] by (simp add: h)
qed

lemma sendFileChunks_loop_stores:
  assumes "CHR ''/'' \<notin> set fileID" and "\<forall>x. sha256_hex L x \<noteq> []"
    and "0 \<le> j" and "j + int (length rest) \<le> 2 ^ 63" and "0 < cs"
  shows "\<exists>w'. sendFileChunks_loop L no_faults fileID cs j rest w = (False, w')
         \<and> filesMetadata (srv w') = filesMetadata (srv w)
         \<and> (\<forall>i. i < j \<longrightarrow>
               files (srv w') (chunkFileName fileID i) = files (srv w) (chunkFileName fileID i))
         \<and> (\<forall>i. j \<le> i \<and> nat (i - j) * cs < length rest \<longrightarrow>
               files (srv w') (chunkFileName fileID i)
                 = Some (take cs (drop (nat (i - j) * cs) rest)))"
  using assms
proof (induction L "no_faults" fileID cs j rest w rule: sendFileChunks_loop.induct)
  case (1 L fileID cs j rest w)
  show ?case
  proof (cases "take cs rest = []")
    case True
    then have e: "rest = []" using "1.prems"(5) by auto
    have "sendFileChunks_loop L no_faults fileID cs j rest w = (False, w)"
      using True by (subst sendFileChunks_loop.simps) simp
    then show ?thesis using e by simp
  next
    case False
    then have ne: "rest \<noteq> []" by auto
    note cs = "1.prems"(5)
    let ?d = "take cs rest"
    let ?w1 = "\<lparr>srv = (srv w)\<lparr>files := (files (srv w))(chunkFileName fileID j \<mapsto> ?d)\<rparr>,
             sent = sent w @ [\<lparr>Method = ''POST'',
               Path = ''/upload_chunk/'' @ fileID @ ''/'' @ FormatInt j,
               Chunk_Hash = sha256_hex L ?d, Body = ?d, Body_json = None\<rparr>]\<rparr>"
    have j63: "j < 2 ^ 63" using "1.prems"(4) ne by (cases rest) auto
    have sc: "sendChunk L no_faults fileID j ?d (sha256_hex L ?d) w = (False, ?w1)"
      using "1.prems"(1,3) j63 "1.prems"(2) by (intro sendChunk_accepted) simp_all
    have len: "j + 1 + int (length (drop cs rest)) \<le> 2 ^ 63"
      using "1.prems"(4) cs ne by (cases rest) auto
    have j1: "0 \<le> j + 1" using "1.prems"(3) by simp
    from "1.hyps" [OF refl False sc [symmetric] refl "1.prems"(1,2) j1 len cs]
    obtain w' where w': "sendFileChunks_loop L no_faults fileID cs (j + 1) (drop cs rest) ?w1 = (False, w')"
      "filesMetadata (srv w') = filesMetadata (srv ?w1)"
      "\<forall>i. i < j + 1 \<longrightarrow>
         files (srv w') (chunkFileName fileID i) = files (srv ?w1) (chunkFileName fileID i)"
      "\<forall>i. j + 1 \<le> i \<and> nat (i - (j + 1)) * cs < length (drop cs rest) \<longrightarrow>
         files (srv w') (chunkFileName fileID i)
           = Some (take cs (drop (nat (i - (j + 1)) * cs) (drop cs rest)))"
      by blast
    have run: "sendFileChunks_loop L no_faults fileID cs j rest w = (False, w')"
      using False sc w'(1) by (subst sendFileChunks_loop.simps) (simp add: Let_def)
    have below: "files (srv w') (chunkFileName fileID i) = files (srv w) (chunkFileName fileID i)"
      if "i < j" for i
    proof -
      have "chunkFileName fileID i \<noteq> chunkFileName fileID j"
        using that chunkFileName_inject [of fileID i j] by auto
      then show ?thesis using w'(3) that by simp
    qed
    have at: "files (srv w') (chunkFileName fileID i) = Some (take cs (drop (nat (i - j) * cs) rest))"
      if "j \<le> i" and "nat (i - j) * cs < length rest" for i
    proof (cases "i = j")
      case True
      then show ?thesis using w'(3) by simp
    next
      case False
      then have i: "j + 1 \<le> i" using that(1) by simp
      then have n: "nat (i - j) = Suc (nat (i - (j + 1)))" by simp
      have "nat (i - (j + 1)) * cs < length (drop cs rest)"
        using that(2) by (simp add: n)
      then have "files (srv w') (chunkFileName fileID i)
          = Some (take cs (drop (nat (i - (j + 1)) * cs) (drop cs rest)))"
        using w'(4) i by blast
      then show ?thesis by (simp add: n add.commute)
    qed
    show ?thesis using run w'(2) below at by auto
  qed
qed

lemma concat_chunks:
  "concat (map (\<lambda>i. take cs (drop (nat (i - 1) * cs) xs)) [1..int k]) = take (k * cs) xs"
proof (induction k)
  case 0
  show ?case by simp
next
  case (Suc k)
  have "[1..int (Suc k)] = [1..int k] @ [int k + 1]"
    using upto_rec2 [of 1 "int (Suc k)"] by (simp add: add.commute)
  moreover have "take (Suc k * cs) xs = take (k * cs + cs) xs" by (simp add: add.commute)
  moreover have "take (k * cs + cs) xs = take (k * cs) xs @ take cs (drop (k * cs) xs)"
    by (rule take_add)
  ultimately show ?case using Suc by simp
qed

lemma reassemble_present:
  assumes "\<forall>j. i \<le> j \<and> j \<le> T \<longrightarrow> fs (chunkFileName fileID j) = Some (d j)"
    and "\<forall>j. chunkFileName fileID j \<noteq> fin"
    and "fs fin = Some w"
  shows "\<exists>fs'. reassemble no_faults fileID fin T i w fs = (None, w @ concat (map d [i..T]), fs')
           \<and> fs' fin = Some (w @ concat (map d [i..T]))"
  using assms
proof (induction "no_faults" fileID fin T i w fs rule: reassemble.induct)
  case (1 fileID fin T i w fs)
  show ?case
  proof (cases "i \<le> T")
    case False
    then show ?thesis using "1.prems"(3) by (subst reassemble.simps) simp
  next
    case True
    let ?name = "chunkFileName fileID i"
    let ?fs = "(fs(fin \<mapsto> w @ d i))(?name := None)"
    have di: "fs ?name = Some (d i)" using "1.prems"(1) True by simp
    have nf: "?name \<noteq> fin" using "1.prems"(2) by blast
    have p1: "\<forall>j. i + 1 \<le> j \<and> j \<le> T \<longrightarrow> ?fs (chunkFileName fileID j) = Some (d j)"
    proof (intro allI impI)
      fix j assume j: "i + 1 \<le> j \<and> j \<le> T"
      then have "chunkFileName fileID j \<noteq> ?name"
        using chunkFileName_inject [of fileID j i] by auto
      moreover have "chunkFileName fileID j \<noteq> fin" using "1.prems"(2) by blast
      ultimately show "?fs (chunkFileName fileID j) = Some (d j)"
        using "1.prems"(1) j by simp
    qed
    have p3: "?fs fin = Some (w @ d i)" using nf by auto
    from "1.hyps" [OF True refl di _ _ p1 "1.prems"(2) p3]
    obtain fs' where fs': "reassemble no_faults fileID fin T (i + 1) (w @ d i) ?fs
        = (None, (w @ d i) @ concat (map d [i + 1..T]), fs')"
      "fs' fin = Some ((w @ d i) @ concat (map d [i + 1..T]))"
      by auto
    have up: "[i..T] = i # [i + 1..T]" using True by (rule upto_rec1)
    have "reassemble no_faults fileID fin T i w fs
        = reassemble no_faults fileID fin T (i + 1) (w @ d i) ?fs"
      using True di by (intro reassemble_step) simp_all
    then show ?thesis using fs' by (simp add: up)
  qed
qed

lemma calculateChunkSize_range:
  assumes "0 < fileSize" and "0 \<le> rnd"
  shows "1 \<le> calculateChunkSize rnd fileSize" and "calculateChunkSize rnd fileSize \<le> fileSize"
  using assms by (auto simp: calculateChunkSize_def Let_def minChunkSize_def)

lemma final_not_ledger: "''final_'' @ name \<noteq> ''fileInfoDB.json''"
  by simp

lemma completeUploadHandler_final_content:
  assumes "strings_Split (Path r) CHR ''/'' = ['''', ''complete_upload'', fileID]"
    and "filesMetadata s fileID = Some m" and "ID m = fileID"
    and "reassemble no_faults fileID (''final_'' @ FileName m) (TotalChunks m) 1 []
           ((files s)(''final_'' @ FileName m \<mapsto> [])) = (None, wr, fs1)"
    and "fs1 (''final_'' @ FileName m) = Some wr"
  shows "files (snd (completeUploadHandler L no_faults r s)) (''final_'' @ FileName m) = Some wr"
proof -
  obtain e fs2 where up: "updateFileInfoDB L no_faults m fs1 = (e, fs2)"
    by (cases "updateFileInfoDB L no_faults m fs1")
  have "fs2 (''final_'' @ FileName m) = fs1 (''final_'' @ FileName m)"
    using up final_not_ledger by (rule updateFileInfoDB_other)
  then have fs2: "fs2 (''final_'' @ FileName m) = Some wr" using assms(5) by simp
  show ?thesis
    using assms(2,3,4,5) fs2
    by (cases e) (simp_all add: completeUploadHandler_def assms(1) up del: fun_upd_apply)
qed

lemma upto_nat: "[1..T] = [1..int (nat T)]"
  by (cases "0 \<le> T") simp_all

lemma transfer_general:
  fixes content :: bytes
  assumes n_def: "n = int (length content)"
    and cs_def: "cs = calculateChunkSize rnd n"
    and T_def: "T = totalChunks_of n cs"
    and ne: "content \<noteq> []" and n63: "n < 2 ^ 63" and rnd: "0 \<le> rnd"
    and H: "\<forall>x. sha256_hex L x \<noteq> []"
    and sent_all: "(T - 1) * cs < n"
  shows "\<exists>w'. client_main L no_faults now rnd fileName (Some content) w = (Returned, w')
           \<and> files (srv w') (''final_'' @ fileName) = Some (take (nat T * nat cs) content)"
proof -
  let ?id = "generateUniqueID now"
  let ?fin = "''final_'' @ fileName"
  let ?md = "\<lparr>ID = ?id, FileName = fileName, FileSize = n, FileHash = sha256_hex L content,
              ChunkSize = cs, TotalChunks = T\<rparr>"
  let ?w1 = "\<lparr>srv = (srv w)\<lparr>filesMetadata := (filesMetadata (srv w))(?id \<mapsto> ?md)\<rparr>,
             sent = sent w @ [\<lparr>Method = ''POST'', Path = ''/register_file'', Chunk_Hash = [],
               Body = [], Body_json = Some \<lparr>ID = [], FileName = fileName, FileSize = n,
                 FileHash = sha256_hex L content, ChunkSize = 0, TotalChunks = 0\<rparr>\<rparr>]\<rparr>"
  have n0: "0 < n" using ne by (simp add: n_def)
  have cs1: "1 \<le> cs" and csn: "cs \<le> n"
    using calculateChunkSize_range [OF n0 rnd] by (simp_all add: cs_def)
  have reg: "registerFile now rnd fileName n (sha256_hex L content) w = (Some (?id, cs, T), ?w1)"
    by (simp add: registerFile_def registerFileHandler_def Let_def cs_def T_def del: fun_upd_apply)
  have slash: "CHR ''/'' \<notin> set ?id" by (rule generateUniqueID_no_slash)
  have "1 + int (length content) \<le> 2 ^ 63" using n63 by (simp add: n_def)
  with sendFileChunks_loop_stores [OF slash H, of 1 content "nat cs" ?w1] cs1
  obtain w2 where w2: "sendFileChunks_loop L no_faults ?id (nat cs) 1 content ?w1 = (False, w2)"
    "filesMetadata (srv w2) = filesMetadata (srv ?w1)"
    "\<forall>i. 1 \<le> i \<and> nat (i - 1) * nat cs < length content \<longrightarrow>
       files (srv w2) (chunkFileName ?id i)
         = Some (take (nat cs) (drop (nat (i - 1) * nat cs) content))"
    by auto
  have snd: "sendFileChunks L no_faults content ?id cs ?w1 = Some (False, w2)"
    using cs1 w2(1) by (simp add: sendFileChunks_def)
  let ?r = "\<lparr>Method = ''GET'', Path = ''/complete_upload/'' @ ?id, Chunk_Hash = [],
               Body = [], Body_json = None\<rparr>"
  let ?d = "\<lambda>i. take (nat cs) (drop (nat (i - 1) * nat cs) content)"
  have md: "filesMetadata (srv w2) ?id = Some ?md" using w2(2) by simp
  have parts: "strings_Split (Path ?r) CHR ''/'' = ['''', ''complete_upload'', ?id]"
    using complete_path_parts [OF slash] by simp
  have present: "\<forall>j. 1 \<le> j \<and> j \<le> T \<longrightarrow>
      ((files (srv w2))(?fin \<mapsto> [])) (chunkFileName ?id j) = Some (?d j)"
  proof (intro allI impI)
    fix j assume j: "1 \<le> j \<and> j \<le> T"
    have "(j - 1) * cs \<le> (T - 1) * cs" using j cs1 by (intro mult_right_mono) simp_all
    then have "(j - 1) * cs < n" using sent_all by simp
    then have "int (nat (j - 1) * nat cs) < int (length content)"
      using j cs1 by (simp add: n_def)
    then have "nat (j - 1) * nat cs < length content" by (simp only: of_nat_less_iff)
    then have "files (srv w2) (chunkFileName ?id j) = Some (?d j)" using w2(3) j by blast
    then show "((files (srv w2))(?fin \<mapsto> [])) (chunkFileName ?id j) = Some (?d j)"
      using chunk_not_final [of now j fileName] by simp
  qed
  have nf: "\<forall>j. chunkFileName ?id j \<noteq> ?fin" by (intro allI chunk_not_final)
  have f0: "((files (srv w2))(?fin \<mapsto> [])) ?fin = Some []" by simp
  from reassemble_present [OF present nf f0]
  have "\<exists>fs'. reassemble no_faults ?id ?fin T 1 [] ((files (srv w2))(?fin \<mapsto> []))
      = (None, concat (map ?d [1..T]), fs') \<and> fs' ?fin = Some (concat (map ?d [1..T]))"
    by (simp only: append_Nil)
  then obtain fs1 where fs1: "reassemble no_faults ?id ?fin T 1 [] ((files (srv w2))(?fin \<mapsto> []))
      = (None, concat (map ?d [1..T]), fs1)" "fs1 ?fin = Some (concat (map ?d [1..T]))"
    by blast
  have cc: "concat (map ?d [1..T]) = take (nat T * nat cs) content"
    by (subst upto_nat) (rule concat_chunks)
  have fin: "files (snd (completeUploadHandler L no_faults ?r (srv w2))) ?fin
      = Some (take (nat T * nat cs) content)"
    using completeUploadHandler_final_content [of ?r ?id "srv w2" ?md _ fs1 L] parts md fs1
    by (simp add: cc)
  have "client_main L no_faults now rnd fileName (Some content) w
      = (Returned, completeUpload L no_faults ?id w2)"
    using ne reg snd by (simp add: client_main_def n_def)
  moreover have "files (srv (completeUpload L no_faults ?id w2)) ?fin
      = Some (take (nat T * nat cs) content)"
    using fin by (simp add: completeUpload_def Let_def case_prod_beta)
  ultimately show ?thesis by blast
qed


text \<open>
  Below \<open>2\<^sup>5\<^sup>3\<close> bytes the registered total is the exact number of chunks the client
  sends, and the destination file holds the original bytes after the completion request,
  whatever the directory and the metadata table held before.
\<close>

lemma transfer_reassembles_file:
  fixes content :: bytes
  assumes ne: "content \<noteq> []" and small: "int (length content) < 2 ^ 53" and rnd: "0 \<le> rnd"
    and H: "\<forall>x. sha256_hex L x \<noteq> []"
  shows "\<exists>w'. client_main L no_faults now rnd fileName (Some content) w = (Returned, w')
           \<and> files (srv w') (''final_'' @ fileName) = Some content"
proof -
  define n where "n = int (length content)"
  define cs where "cs = calculateChunkSize rnd n"
  define T where "T = totalChunks_of n cs"
  have n0: "0 < n" using ne by (simp add: n_def)
  have cs1: "1 \<le> cs" and csn: "cs \<le> n"
    using calculateChunkSize_range [OF n0 rnd] by (simp_all add: cs_def)
  have n53: "n < 2 ^ 53" using small by (simp add: n_def)
  have T: "T = (n + cs - 1) div cs"
    unfolding T_def using n0 n53 cs1 csn by (intro totalChunks_of_exact) simp_all
  have b: "n \<le> T * cs" "(T - 1) * cs < n"
    using ceil_div_bounds [of cs n] cs1 by (simp_all add: T)
  have T0: "0 \<le> T"
  proof (rule ccontr)
    assume "\<not> 0 \<le> T"
    then have "T * cs \<le> 0" using cs1 by (simp add: mult_le_0_iff)
    then show False using b(1) n0 by simp
  qed
  have "int (length content) \<le> int (nat T * nat cs)" using b(1) T0 cs1 by (simp add: n_def)
  then have "length content \<le> nat T * nat cs" by (simp only: of_nat_le_iff)
  then have tk: "take (nat T * nat cs) content = content" by simp
  have "n < 2 ^ 63" using n53 by simp
  from transfer_general [OF n_def cs_def T_def ne this rnd H b(2), of now fileName w]
  show ?thesis by (simp add: tk)
qed

lemma transfer_reassembles_file_example:
  "fst (client_main demo_lib no_faults 1700000000000000000 0 ''a.txt'' (Some ''0123456789'')
          demo_world) = Returned
   \<and> files (srv (snd (client_main demo_lib no_faults 1700000000000000000 0 ''a.txt''
          (Some ''0123456789'') demo_world))) ''final_a.txt'' = Some ''0123456789''"
proof -
  have H: "\<forall>x. sha256_hex demo_lib x \<noteq> []"
    by (simp add: demo_hash_def FormatInt_not_Nil)
  from transfer_reassembles_file [OF _ _ _ H, of "''0123456789''" 0 1700000000000000000
      "''a.txt''" demo_world]
  show ?thesis by auto
qed

text \<open>
  Claim C1. The claim asks that, for every file, once the file is registered, all its
  chunks are sent and accepted and the completion request reaches the whole-file digest
  comparison, the reassembled destination file hold the original bytes. For a file of
  \<open>2\<^sup>5\<^sup>3 + 1\<close> bytes and a selected chunk size of \<open>2\<^sup>2\<^sup>0\<close> bytes the file splits into
  \<open>2\<^sup>3\<^sup>3 + 1\<close> chunks; the client sends them and returns normally, but the registered
  total is \<open>2\<^sup>3\<^sup>3\<close>, so the completion request folds only the first \<open>2\<^sup>3\<^sup>3\<close> chunks into
  the destination file: it holds \<open>2\<^sup>5\<^sup>3\<close> bytes and the last byte of the file is missing.
\<close>

theorem large_transfer_loses_last_chunk:
  "fst (client_main demo_lib no_faults 1700000000000000000 946176 ''big''
          (Some (replicate 9007199254740993 CHR ''a'')) demo_world) = Returned
   \<and> files (srv (snd (client_main demo_lib no_faults 1700000000000000000 946176 ''big''
          (Some (replicate 9007199254740993 CHR ''a'')) demo_world))) ''final_big''
       = Some (replicate 9007199254740992 CHR ''a'')
   \<and> replicate 9007199254740992 CHR ''a'' \<noteq> replicate 9007199254740993 CHR ''a''"
proof -
  define content where "content = replicate 9007199254740993 CHR ''a''"
  have len: "length content = 9007199254740993" by (simp only: content_def length_replicate)
  have n: "(9007199254740993::int) = int (length content)" by (simp only: len)
  have cs: "(1048576::int) = calculateChunkSize 946176 9007199254740993"
    by (simp add: calculateChunkSize_def minChunkSize_def)
  have T: "(8589934592::int) = totalChunks_of 9007199254740993 1048576"
    by (simp only: totalChunks_of_large)
  have ne: "content \<noteq> []" using len by auto
  have H: "\<forall>x. sha256_hex demo_lib x \<noteq> []"
    by (simp add: demo_hash_def FormatInt_not_Nil)
  have tk: "take (nat 8589934592 * nat 1048576) content = replicate 9007199254740992 CHR ''a''"
    by (simp add: content_def)
  from transfer_general [OF n cs T ne _ _ H, of 1700000000000000000 "''big''" demo_world]
  obtain w' where w': "client_main demo_lib no_faults 1700000000000000000 946176 ''big''
      (Some content) demo_world = (Returned, w')"
    "files (srv w') (''final_'' @ ''big'') = Some (take (nat 8589934592 * nat 1048576) content)"
    by auto
  have "files (srv w') ''final_big'' = Some (replicate 9007199254740992 CHR ''a'')"
    using w'(2) by (simp only: tk) simp
  then show ?thesis using w'(1) by (simp add: content_def)
qed

section \<open>Failures and their status codes\<close>

lemma chunk_failure_iff:
  "chunk_failure F fs fileID T \<longleftrightarrow>
     (\<exists>j. 1 \<le> j \<and> j \<le> T \<and> (fs (chunkFileName fileID j) = None
        \<or> open_fails F (chunkFileName fileID j)
        \<or> copy_fails F (chunkFileName fileID j) \<noteq> None))"
  by (simp add: chunk_failure_def list_ex_iff Bex_def conj_assoc)

lemma reassemble_fault:
  assumes "\<forall>j. chunkFileName fileID j \<noteq> fin"
    and "i \<le> j" and "j \<le> T"
    and "fs (chunkFileName fileID j) = None \<or> open_fails F (chunkFileName fileID j)
         \<or> copy_fails F (chunkFileName fileID j) \<noteq> None"
  shows "fst (reassemble F fileID fin T i w fs) \<noteq> None"
  using assms
proof (induction F fileID fin T i w fs rule: reassemble.induct)
  case (1 F fileID fin T i w fs)
  let ?name = "chunkFileName fileID i"
  have iT: "i \<le> T" using "1.prems"(2,3) by simp
  show ?case
  proof (cases "fs ?name = None \<or> open_fails F ?name \<or> copy_fails F ?name \<noteq> None")
    case True
    then show ?thesis
      using iT by (subst reassemble.simps) (auto simp: Let_def split: option.splits)
  next
    case False
    then obtain d where d: "fs ?name = Some d" and op: "\<not> open_fails F ?name"
      and cp: "copy_fails F ?name = None" by auto
    let ?fs = "(fs(fin \<mapsto> w @ d))(?name := None)"
    have ji: "j \<noteq> i" using False "1.prems"(4) by auto
    then have j1: "i + 1 \<le> j" using "1.prems"(2) by simp
    have "chunkFileName fileID j \<noteq> ?name" using ji chunkFileName_inject [of fileID j i] by auto
    moreover have "chunkFileName fileID j \<noteq> fin" using "1.prems"(1) by blast
    ultimately have same: "?fs (chunkFileName fileID j) = fs (chunkFileName fileID j)" by simp
    have f: "?fs (chunkFileName fileID j) = None \<or> open_fails F (chunkFileName fileID j)
         \<or> copy_fails F (chunkFileName fileID j) \<noteq> None"
      using "1.prems"(4) by (simp only: same)
    have step: "reassemble F fileID fin T i w fs
        = reassemble F fileID fin T (i + 1) (w @ d) ?fs"
      using iT d op cp by (rule reassemble_step)
    have "fst (reassemble F fileID fin T (i + 1) (w @ d) ?fs) \<noteq> None"
      using "1.IH" [OF iT refl d op cp "1.prems"(1) j1 "1.prems"(3) f] .
    then show ?thesis unfolding step .
  qed
qed

lemma reassemble_ok:
  assumes "\<forall>j. chunkFileName fileID j \<noteq> fin"
    and "\<forall>j. i \<le> j \<and> j \<le> T \<longrightarrow> fs (chunkFileName fileID j) \<noteq> None
          \<and> \<not> open_fails F (chunkFileName fileID j)
          \<and> copy_fails F (chunkFileName fileID j) = None"
  shows "\<exists>fs'. reassemble F fileID fin T i w fs
            = (None, w @ concat (map (\<lambda>j. the (fs (chunkFileName fileID j))) [i..T]), fs')
          \<and> (\<forall>n. n \<noteq> fin \<and> (\<forall>j. n \<noteq> chunkFileName fileID j) \<longrightarrow> fs' n = fs n)"
  using assms
proof (induction F fileID fin T i w fs rule: reassemble.induct)
  case (1 F fileID fin T i w fs)
  show ?case
  proof (cases "i \<le> T")
    case False
    then show ?thesis by (subst reassemble.simps) simp
  next
    case True
    let ?name = "chunkFileName fileID i"
    from "1.prems"(2) True obtain d where d: "fs ?name = Some d" and op: "\<not> open_fails F ?name"
      and cp: "copy_fails F ?name = None" by auto
    let ?fs = "(fs(fin \<mapsto> w @ d))(?name := None)"
    have same: "?fs (chunkFileName fileID j) = fs (chunkFileName fileID j)" if "i + 1 \<le> j" for j
    proof -
      have "chunkFileName fileID j \<noteq> ?name"
        using that chunkFileName_inject [of fileID j i] by auto
      moreover have "chunkFileName fileID j \<noteq> fin" using "1.prems"(1) by blast
      ultimately show ?thesis by simp
    qed
    have p2: "\<forall>j. i + 1 \<le> j \<and> j \<le> T \<longrightarrow> ?fs (chunkFileName fileID j) \<noteq> None
          \<and> \<not> open_fails F (chunkFileName fileID j)
          \<and> copy_fails F (chunkFileName fileID j) = None"
    proof (intro allI impI)
      fix j assume j: "i + 1 \<le> j \<and> j \<le> T"
      then have "i \<le> j \<and> j \<le> T" by simp
      then show "?fs (chunkFileName fileID j) \<noteq> None
          \<and> \<not> open_fails F (chunkFileName fileID j)
          \<and> copy_fails F (chunkFileName fileID j) = None"
        using "1.prems"(2) j by (simp only: same) blast
    qed
    from "1.IH" [OF True refl d op cp "1.prems"(1) p2]
    obtain fs' where fs': "reassemble F fileID fin T (i + 1) (w @ d) ?fs
        = (None, (w @ d) @ concat (map (\<lambda>j. the (?fs (chunkFileName fileID j))) [i + 1..T]), fs')"
      "\<forall>n. n \<noteq> fin \<and> (\<forall>j. n \<noteq> chunkFileName fileID j) \<longrightarrow> fs' n = ?fs n"
      by blast
    have m: "map (\<lambda>j. the (?fs (chunkFileName fileID j))) [i + 1..T]
           = map (\<lambda>j. the (fs (chunkFileName fileID j))) [i + 1..T]"
    proof (rule map_cong [OF refl])
      fix j assume "j \<in> set [i + 1..T]"
      then have "i + 1 \<le> j" by simp
      then show "the (?fs (chunkFileName fileID j)) = the (fs (chunkFileName fileID j))"
        by (simp only: same)
    qed
    have up: "[i..T] = i # [i + 1..T]" using True by (rule upto_rec1)
    have run: "reassemble F fileID fin T i w fs
        = (None, w @ concat (map (\<lambda>j. the (fs (chunkFileName fileID j))) [i..T]), fs')"
    proof -
      have step: "reassemble F fileID fin T i w fs
          = reassemble F fileID fin T (i + 1) (w @ d) ?fs"
        using True d op cp by (rule reassemble_step)
      have "reassemble F fileID fin T i w fs
          = (None, (w @ d) @ concat (map (\<lambda>j. the (fs (chunkFileName fileID j))) [i + 1..T]), fs')"
        using fs'(1) by (simp only: step m)
      then show ?thesis by (simp add: up d)
    qed
    have frame: "\<forall>n. n \<noteq> fin \<and> (\<forall>j. n \<noteq> chunkFileName fileID j) \<longrightarrow> fs' n = fs n"
    proof (intro allI impI)
      fix n assume n: "n \<noteq> fin \<and> (\<forall>j. n \<noteq> chunkFileName fileID j)"
      then have "fs' n = ?fs n" using fs'(2) by blast
      also have "\<dots> = fs n" using n by simp
      finally show "fs' n = fs n" .
    qed
    show ?thesis using run frame by blast
  qed
qed

lemma updateFileInfoDB_ledger_failure:
  "ledger_failure F fs \<Longrightarrow> fst (updateFileInfoDB L F metadata fs)"
  by (auto simp: ledger_failure_def updateFileInfoDB_def ReadFile_def WriteFile_def Let_def
      split: option.splits)

lemma complete_status_io:
  assumes parts: "3 \<le> length (strings_Split (Path r) CHR ''/'')"
    and fid: "strings_Split (Path r) CHR ''/'' ! 2 = generateUniqueID t"
    and md: "filesMetadata s (generateUniqueID t) = Some m"
    and idm: "ID m = generateUniqueID t"
    and early: "create_fails F (''final_'' @ FileName m)
        \<or> chunk_failure F (files s) (generateUniqueID t) (TotalChunks m)
        \<or> sync_fails F (''final_'' @ FileName m) \<or> read_fails F (''final_'' @ FileName m)"
  shows "fst (fst (completeUploadHandler L F r s)) = StatusInternalServerError"
proof -
  let ?id = "generateUniqueID t"
  let ?fin = "''final_'' @ FileName m"
  let ?fs0 = "(files s)(?fin \<mapsto> [])"
  have nf: "\<forall>j. chunkFileName ?id j \<noteq> ?fin" by (intro allI chunk_not_final)
  obtain res wr fs1 where re: "reassemble F ?id ?fin (TotalChunks m) 1 [] ?fs0 = (res, wr, fs1)"
    by (cases "reassemble F ?id ?fin (TotalChunks m) 1 [] ?fs0") auto
  show ?thesis
  proof (cases "create_fails F ?fin")
    case True
    then show ?thesis
      using parts fid md by (simp add: completeUploadHandler_def Let_def)
  next
    case False
    show ?thesis
    proof (cases res)
      case (Some err)
      then have "fst err = StatusInternalServerError"
        using reassemble_error_cases [of F ?id ?fin "TotalChunks m" 1 "[]" ?fs0 err wr fs1] re
        by auto
      then show ?thesis
        using parts fid md idm False re Some by (simp add: completeUploadHandler_def Let_def)
    next
      case None
      have "\<not> chunk_failure F (files s) ?id (TotalChunks m)"
      proof
        assume "chunk_failure F (files s) ?id (TotalChunks m)"
        then obtain j where j: "1 \<le> j" "j \<le> TotalChunks m"
          "files s (chunkFileName ?id j) = None \<or> open_fails F (chunkFileName ?id j)
           \<or> copy_fails F (chunkFileName ?id j) \<noteq> None"
          unfolding chunk_failure_iff by blast
        have "?fs0 (chunkFileName ?id j) = files s (chunkFileName ?id j)" using nf by simp
        then have f: "?fs0 (chunkFileName ?id j) = None \<or> open_fails F (chunkFileName ?id j)
           \<or> copy_fails F (chunkFileName ?id j) \<noteq> None"
          using j(3) by simp
        have "fst (reassemble F ?id ?fin (TotalChunks m) 1 [] ?fs0) \<noteq> None"
          using nf j(1,2) f by (rule reassemble_fault)
        then show False using re None by simp
      qed
      then have "sync_fails F ?fin \<or> read_fails F ?fin" using early False by blast
      then show ?thesis
        using parts fid md idm False re None
        by (auto simp: completeUploadHandler_def Let_def)
    qed
  qed
qed

lemma complete_status_after_io:
  assumes parts: "3 \<le> length (strings_Split (Path r) CHR ''/'')"
    and fid: "strings_Split (Path r) CHR ''/'' ! 2 = generateUniqueID t"
    and md: "filesMetadata s (generateUniqueID t) = Some m"
    and idm: "ID m = generateUniqueID t"
    and ok: "\<not> (create_fails F (''final_'' @ FileName m)
        \<or> chunk_failure F (files s) (generateUniqueID t) (TotalChunks m)
        \<or> sync_fails F (''final_'' @ FileName m) \<or> read_fails F (''final_'' @ FileName m))"
  shows "sha256_hex L (concat (map (\<lambda>j. the (files s (chunkFileName (generateUniqueID t) j)))
             [1..TotalChunks m])) \<noteq> FileHash m \<Longrightarrow>
           fst (completeUploadHandler L F r s) = (StatusBadRequest, Final_file_hash_mismatch)"
    and "sha256_hex L (concat (map (\<lambda>j. the (files s (chunkFileName (generateUniqueID t) j)))
             [1..TotalChunks m])) = FileHash m \<Longrightarrow> ledger_failure F (files s) \<Longrightarrow>
           fst (completeUploadHandler L F r s)
             = (StatusInternalServerError, Error_updating_fileInfoDB)"
proof -
  let ?id = "generateUniqueID t"
  let ?fin = "''final_'' @ FileName m"
  let ?fs0 = "(files s)(?fin \<mapsto> [])"
  let ?asm = "concat (map (\<lambda>j. the (files s (chunkFileName ?id j))) [1..TotalChunks m])"
  have nf: "\<forall>j. chunkFileName ?id j \<noteq> ?fin" by (intro allI chunk_not_final)
  have same: "?fs0 (chunkFileName ?id j) = files s (chunkFileName ?id j)" for j
    using nf by simp
  have present: "\<forall>j. 1 \<le> j \<and> j \<le> TotalChunks m \<longrightarrow> ?fs0 (chunkFileName ?id j) \<noteq> None
          \<and> \<not> open_fails F (chunkFileName ?id j)
          \<and> copy_fails F (chunkFileName ?id j) = None"
    using ok unfolding chunk_failure_iff same by auto
  from reassemble_ok [OF nf present, of "[]"]
  obtain fs1 where fs1: "reassemble F ?id ?fin (TotalChunks m) 1 [] ?fs0
      = (None, [] @ concat (map (\<lambda>j. the (?fs0 (chunkFileName ?id j))) [1..TotalChunks m]), fs1)"
    "\<forall>n. n \<noteq> ?fin \<and> (\<forall>j. n \<noteq> chunkFileName ?id j) \<longrightarrow> fs1 n = ?fs0 n"
    by blast
  have re: "reassemble F ?id ?fin (TotalChunks m) 1 [] ?fs0 = (None, ?asm, fs1)"
    using fs1(1) unfolding same by simp
  have "fs1 ''fileInfoDB.json'' = ?fs0 ''fileInfoDB.json''"
    using fs1(2) final_not_ledger [of "FileName m"] chunk_not_ledger [of t]
    by (metis (no_types))
  then have led: "fs1 ''fileInfoDB.json'' = files s ''fileInfoDB.json''"
    using final_not_ledger [of "FileName m"] by (simp del: fun_upd_apply add: fun_upd_other)
  have c: "\<not> create_fails F ?fin" "\<not> sync_fails F ?fin" "\<not> read_fails F ?fin"
    using ok by blast+
  show "sha256_hex L ?asm \<noteq> FileHash m \<Longrightarrow>
      fst (completeUploadHandler L F r s) = (StatusBadRequest, Final_file_hash_mismatch)"
    using parts fid md idm c re by (simp add: completeUploadHandler_def Let_def)
  show "fst (completeUploadHandler L F r s) = (StatusInternalServerError, Error_updating_fileInfoDB)"
    if h: "sha256_hex L ?asm = FileHash m" and lf: "ledger_failure F (files s)"
  proof -
    have "ledger_failure F fs1" using lf led by (simp add: ledger_failure_def)
    then have "fst (updateFileInfoDB L F m fs1)" by (rule updateFileInfoDB_ledger_failure)
    then obtain fs2 where "updateFileInfoDB L F m fs1 = (True, fs2)"
      by (cases "updateFileInfoDB L F m fs1") auto
    then show ?thesis
      using parts fid md idm c re h by (simp add: completeUploadHandler_def Let_def)
  qed
qed

text \<open>
  Claim C7, amended. Every file I/O failure on the server is reported with the
  server-error status 500: in a completion, when creating the destination file fails,
  when a chunk file is missing, cannot be opened or cannot be copied, when syncing or
  re-reading the destination fails, and, with all that done and the digest matching,
  when the ledger cannot be read or written; in a chunk upload, when creating or writing
  the chunk file fails. A final-file hash mismatch and missing metadata at completion are
  reported with the client-error status 400, and so is a chunk hash mismatch, as malformed
  input is (a URL with too few parts, a missing chunk hash, a chunk number that is not a
  number, an undecodable registration). The completion clauses past the metadata lookup
  are for ids that \<open>generateUniqueID\<close> issues and a stored id equal to the one asked for.
\<close>

theorem failure_statuses:
  assumes "parts = strings_Split (Path r) CHR ''/''"
    and "fin = ''final_'' @ FileName m"
    and "assembled =
           concat (map (\<lambda>j. the (files s (chunkFileName (parts ! 2) j))) [1..TotalChunks m])"
    and "name = chunkFileName (parts ! 2) num"
  shows
    "(length parts < 3 \<longrightarrow>
        fst (completeUploadHandler L F r s) = (StatusBadRequest, Invalid_URL))
   \<and> (3 \<le> length parts \<and> filesMetadata s (parts ! 2) = None \<longrightarrow>
        fst (completeUploadHandler L F r s) = (StatusBadRequest, File_metadata_not_found))
   \<and> (3 \<le> length parts \<and> filesMetadata s (parts ! 2) = Some m
        \<and> parts ! 2 = generateUniqueID t \<and> ID m = parts ! 2 \<longrightarrow>
        (create_fails F fin \<or> chunk_failure F (files s) (parts ! 2) (TotalChunks m)
           \<or> sync_fails F fin \<or> read_fails F fin \<longrightarrow>
           fst (fst (completeUploadHandler L F r s)) = StatusInternalServerError)
      \<and> (\<not> (create_fails F fin \<or> chunk_failure F (files s) (parts ! 2) (TotalChunks m)
              \<or> sync_fails F fin \<or> read_fails F fin)
           \<and> sha256_hex L assembled \<noteq> FileHash m \<longrightarrow>
           fst (completeUploadHandler L F r s) = (StatusBadRequest, Final_file_hash_mismatch))
      \<and> (\<not> (create_fails F fin \<or> chunk_failure F (files s) (parts ! 2) (TotalChunks m)
              \<or> sync_fails F fin \<or> read_fails F fin)
           \<and> sha256_hex L assembled = FileHash m \<and> ledger_failure F (files s) \<longrightarrow>
           fst (completeUploadHandler L F r s)
             = (StatusInternalServerError, Error_updating_fileInfoDB)))
   \<and> (Method r = ''POST'' \<and> length parts < 4 \<longrightarrow>
        fst (uploadChunkHandler L F r s) = (StatusBadRequest, Invalid_URL))
   \<and> (Method r = ''POST'' \<and> 4 \<le> length parts \<and> Chunk_Hash r = [] \<longrightarrow>
        fst (uploadChunkHandler L F r s) = (StatusBadRequest, Chunk_hash_is_missing))
   \<and> (Method r = ''POST'' \<and> 4 \<le> length parts \<and> Chunk_Hash r \<noteq> []
        \<and> Atoi (parts ! 3) = None \<longrightarrow>
        fst (uploadChunkHandler L F r s) = (StatusBadRequest, Chunk_hash_number_is_missing))
   \<and> (Method r = ''POST'' \<and> 4 \<le> length parts \<and> Chunk_Hash r \<noteq> []
        \<and> Atoi (parts ! 3) = Some num \<longrightarrow>
        (create_fails F name \<or> copy_fails F name \<noteq> None \<longrightarrow>
           fst (fst (uploadChunkHandler L F r s)) = StatusInternalServerError)
      \<and> (\<not> create_fails F name \<and> copy_fails F name = None
           \<and> sha256_hex L (Body r) \<noteq> Chunk_Hash r \<longrightarrow>
           fst (uploadChunkHandler L F r s) = (StatusBadRequest, Chunk_hash_mismatch)))
   \<and> (Method r = ''POST'' \<and> Body_json r = None \<longrightarrow>
        fst (registerFileHandler now rnd r s) = (StatusBadRequest, Decode_error))"
proof -
  have c1: "length parts < 3 \<longrightarrow>
      fst (completeUploadHandler L F r s) = (StatusBadRequest, Invalid_URL)"
    by (simp add: completeUploadHandler_def assms(1))
  have c2: "3 \<le> length parts \<and> filesMetadata s (parts ! 2) = None \<longrightarrow>
      fst (completeUploadHandler L F r s) = (StatusBadRequest, File_metadata_not_found)"
    by (simp add: completeUploadHandler_def assms(1))
  have c3: "3 \<le> length parts \<and> filesMetadata s (parts ! 2) = Some m
        \<and> parts ! 2 = generateUniqueID t \<and> ID m = parts ! 2 \<longrightarrow>
        (create_fails F fin \<or> chunk_failure F (files s) (parts ! 2) (TotalChunks m)
           \<or> sync_fails F fin \<or> read_fails F fin \<longrightarrow>
           fst (fst (completeUploadHandler L F r s)) = StatusInternalServerError)
      \<and> (\<not> (create_fails F fin \<or> chunk_failure F (files s) (parts ! 2) (TotalChunks m)
              \<or> sync_fails F fin \<or> read_fails F fin)
           \<and> sha256_hex L assembled \<noteq> FileHash m \<longrightarrow>
           fst (completeUploadHandler L F r s) = (StatusBadRequest, Final_file_hash_mismatch))
      \<and> (\<not> (create_fails F fin \<or> chunk_failure F (files s) (parts ! 2) (TotalChunks m)
              \<or> sync_fails F fin \<or> read_fails F fin)
           \<and> sha256_hex L assembled = FileHash m \<and> ledger_failure F (files s) \<longrightarrow>
           fst (completeUploadHandler L F r s)
             = (StatusInternalServerError, Error_updating_fileInfoDB))"
  proof (intro impI)
    assume h: "3 \<le> length parts \<and> filesMetadata s (parts ! 2) = Some m
        \<and> parts ! 2 = generateUniqueID t \<and> ID m = parts ! 2"
    then have p: "3 \<le> length (strings_Split (Path r) CHR ''/'')"
      and fid: "strings_Split (Path r) CHR ''/'' ! 2 = generateUniqueID t"
      and md: "filesMetadata s (generateUniqueID t) = Some m"
      and idm: "ID m = generateUniqueID t"
      by (auto simp: assms(1))
    have e: "parts ! 2 = generateUniqueID t" using h by simp
    show "(create_fails F fin \<or> chunk_failure F (files s) (parts ! 2) (TotalChunks m)
           \<or> sync_fails F fin \<or> read_fails F fin \<longrightarrow>
           fst (fst (completeUploadHandler L F r s)) = StatusInternalServerError)
      \<and> (\<not> (create_fails F fin \<or> chunk_failure F (files s) (parts ! 2) (TotalChunks m)
              \<or> sync_fails F fin \<or> read_fails F fin)
           \<and> sha256_hex L assembled \<noteq> FileHash m \<longrightarrow>
           fst (completeUploadHandler L F r s) = (StatusBadRequest, Final_file_hash_mismatch))
      \<and> (\<not> (create_fails F fin \<or> chunk_failure F (files s) (parts ! 2) (TotalChunks m)
              \<or> sync_fails F fin \<or> read_fails F fin)
           \<and> sha256_hex L assembled = FileHash m \<and> ledger_failure F (files s) \<longrightarrow>
           fst (completeUploadHandler L F r s)
             = (StatusInternalServerError, Error_updating_fileInfoDB))"
      unfolding assms(2,3) e
      using complete_status_io [OF p fid md idm, of F L]
        complete_status_after_io [OF p fid md idm, of F L]
      by blast
  qed
  have u: "(Method r = ''POST'' \<and> length parts < 4 \<longrightarrow>
        fst (uploadChunkHandler L F r s) = (StatusBadRequest, Invalid_URL))
   \<and> (Method r = ''POST'' \<and> 4 \<le> length parts \<and> Chunk_Hash r = [] \<longrightarrow>
        fst (uploadChunkHandler L F r s) = (StatusBadRequest, Chunk_hash_is_missing))
   \<and> (Method r = ''POST'' \<and> 4 \<le> length parts \<and> Chunk_Hash r \<noteq> []
        \<and> Atoi (parts ! 3) = None \<longrightarrow>
        fst (uploadChunkHandler L F r s) = (StatusBadRequest, Chunk_hash_number_is_missing))
   \<and> (Method r = ''POST'' \<and> 4 \<le> length parts \<and> Chunk_Hash r \<noteq> []
        \<and> Atoi (parts ! 3) = Some num \<longrightarrow>
        (create_fails F name \<or> copy_fails F name \<noteq> None \<longrightarrow>
           fst (fst (uploadChunkHandler L F r s)) = StatusInternalServerError)
      \<and> (\<not> create_fails F name \<and> copy_fails F name = None
           \<and> sha256_hex L (Body r) \<noteq> Chunk_Hash r \<longrightarrow>
           fst (uploadChunkHandler L F r s) = (StatusBadRequest, Chunk_hash_mismatch)))"
    by (auto simp: uploadChunkHandler_def Let_def assms(1,4) split: option.splits)
  have g: "Method r = ''POST'' \<and> Body_json r = None \<longrightarrow>
        fst (registerFileHandler now rnd r s) = (StatusBadRequest, Decode_error)"
    by (simp add: registerFileHandler_def)
  from c1 c2 c3 u g show ?thesis by blast
qed

lemma demo_ids:
  "generateUniqueID 7 = ''7''" "generateUniqueID 8 = ''8''"
  by (simp_all add: generateUniqueID_def FormatInt_def format_nat.simps digit_char_def)

lemma demo_chunk_names:
  "chunkFileName ''7'' 1 = ''7_part_1''" "chunkFileName ''8'' 1 = ''8_part_1''"
  "chunkFileName ''8'' 2 = ''8_part_2''"
  by (simp_all add: chunkFileName_def FormatInt_def format_nat.simps digit_char_def)

lemma chunk_failure_one:
  "chunk_failure F fs fileID 1 \<longleftrightarrow>
     fs (chunkFileName fileID 1) = None \<or> open_fails F (chunkFileName fileID 1)
     \<or> copy_fails F (chunkFileName fileID 1) \<noteq> None"
  by (simp add: chunk_failure_def list_ex_iff)

theorem failure_statuses_witness:
  "fst (completeUploadHandler demo_lib no_faults demo_complete_unknown demo_server)
     = (StatusBadRequest, File_metadata_not_found)
   \<and> fst (completeUploadHandler demo_lib no_faults demo_complete
        (demo_server_registered\<lparr>files := (files demo_server_registered)(''7_part_1'' \<mapsto> ''abX'')\<rparr>))
     = (StatusBadRequest, Final_file_hash_mismatch)
   \<and> fst (fst (completeUploadHandler demo_lib no_faults demo_complete_gap demo_server_gap))
     = StatusInternalServerError
   \<and> fst (completeUploadHandler demo_lib no_faults demo_complete demo_server_no_ledger)
     = (StatusInternalServerError, Error_updating_fileInfoDB)
   \<and> fst (fst (uploadChunkHandler demo_lib demo_faults_create demo_upload_corrupt
        demo_server_registered)) = StatusInternalServerError
   \<and> fst (uploadChunkHandler demo_lib no_faults demo_upload_corrupt demo_server_registered)
     = (StatusBadRequest, Chunk_hash_mismatch)
   \<and> fst (registerFileHandler 7 0 demo_upload_corrupt demo_server_registered)
     = (StatusBadRequest, Decode_error)"
proof -
  let ?sc = "demo_server_registered\<lparr>files := (files demo_server_registered)(''7_part_1'' \<mapsto> ''abX'')\<rparr>"
  have w1: "fst (completeUploadHandler demo_lib no_faults demo_complete_unknown demo_server)
      = (StatusBadRequest, File_metadata_not_found)"
    using failure_statuses [OF refl refl refl refl, where r = demo_complete_unknown
        and s = demo_server and L = demo_lib and F = no_faults]
    by (simp add: demo_complete_unknown_def demo_server_def)
  have w2: "fst (completeUploadHandler demo_lib no_faults demo_complete ?sc)
      = (StatusBadRequest, Final_file_hash_mismatch)"
    using failure_statuses [OF refl refl refl refl, where r = demo_complete and s = ?sc
        and m = demo_metadata and L = demo_lib and F = no_faults and t = 7]
    by (simp add: demo_complete_def demo_server_registered_def demo_ids demo_chunk_names
        chunk_failure_one demo_hash_simps)
  have cf: "chunk_failure no_faults (files demo_server_gap) ''8'' 2"
    unfolding chunk_failure_iff
    by (rule exI [of _ 2]) (simp add: demo_chunk_names demo_server_gap_def)
  have w3: "fst (fst (completeUploadHandler demo_lib no_faults demo_complete_gap demo_server_gap))
      = StatusInternalServerError"
    using failure_statuses [OF refl refl refl refl, where r = demo_complete_gap
        and s = demo_server_gap and m = demo_metadata_gap and L = demo_lib and F = no_faults
        and t = 8] cf
    by (simp add: demo_complete_gap_def demo_server_gap_def demo_metadata_gap_def demo_ids)
  have w4: "fst (completeUploadHandler demo_lib no_faults demo_complete demo_server_no_ledger)
      = (StatusInternalServerError, Error_updating_fileInfoDB)"
    using failure_statuses [OF refl refl refl refl, where r = demo_complete
        and s = demo_server_no_ledger and m = demo_metadata and L = demo_lib and F = no_faults
        and t = 7]
    by (simp add: demo_complete_def demo_server_no_ledger_def demo_ids demo_chunk_names
        chunk_failure_one demo_hash_simps ledger_failure_def)
  have w5: "fst (fst (uploadChunkHandler demo_lib demo_faults_create demo_upload_corrupt
        demo_server_registered)) = StatusInternalServerError"
    using failure_statuses [OF refl refl refl refl, where r = demo_upload_corrupt
        and s = demo_server_registered and num = 1 and L = demo_lib and F = demo_faults_create]
    by (simp add: demo_upload_corrupt_def Atoi_1 demo_faults_create_def demo_hash_simps)
  have w6: "fst (uploadChunkHandler demo_lib no_faults demo_upload_corrupt demo_server_registered)
      = (StatusBadRequest, Chunk_hash_mismatch)"
    using failure_statuses [OF refl refl refl refl, where r = demo_upload_corrupt
        and s = demo_server_registered and num = 1 and L = demo_lib and F = no_faults]
    by (simp add: demo_upload_corrupt_def Atoi_1 demo_hash_simps)
  have w7: "fst (registerFileHandler 7 0 demo_upload_corrupt demo_server_registered)
      = (StatusBadRequest, Decode_error)"
    using failure_statuses [OF refl refl refl refl, where r = demo_upload_corrupt
        and s = demo_server_registered and now = 7 and rnd = 0]
    by (simp add: demo_upload_corrupt_def)
  from w1 w2 w3 w4 w5 w6 w7 show ?thesis by blast
qed

end
